theory Spec2Isabelle
  imports Complex_Main
begin

section \<open>JavaScript strings\<close>

text \<open>
  A JavaScript string is a sequence of UTF-16 code units. The patterns of the service
  mention the code units of the euro, pound and yen signs, which are above 255, so a
  string is modelled as a list of code units, each a natural number. \<open>str\<close> turns an
  ASCII literal into such a list.
\<close>

type_synonym jsstring = "nat list"

definition str :: "string \<Rightarrow> jsstring" where
  "str s = map of_char s"

definition is_digit :: "nat \<Rightarrow> bool" where
  "is_digit c = (48 \<le> c \<and> c \<le> 57)"

primrec in_class :: "(nat \<times> nat) list \<Rightarrow> nat \<Rightarrow> bool" where
  "in_class [] c = False"
| "in_class (r # rs) c = ((fst r \<le> c \<and> c \<le> snd r) \<or> in_class rs c)"

text \<open>
  The code units that \<open>\s\<close>, \<open>trim\<close> and \<open>parseFloat\<close> treat as white space
  (WhiteSpace and LineTerminator of ECMAScript), as ranges.
\<close>

definition ws_ranges :: "(nat \<times> nat) list" where
  "ws_ranges = [(9, 13), (32, 32), (160, 160), (5760, 5760), (8192, 8202), (8232, 8233),
                (8239, 8239), (8287, 8287), (12288, 12288), (65279, 65279)]"

definition is_ws :: "nat \<Rightarrow> bool" where
  "is_ws c = in_class ws_ranges c"

definition substring0 :: "jsstring \<Rightarrow> nat \<Rightarrow> jsstring" where
  \<comment> \<open>\<open>s.substring(0, n)\<close>\<close>
  "substring0 s n = take n s"

definition trim :: "jsstring \<Rightarrow> jsstring" where
  "trim s = rev (dropWhile is_ws (rev (dropWhile is_ws s)))"

primrec replace_char :: "nat \<Rightarrow> nat \<Rightarrow> jsstring \<Rightarrow> jsstring" where
  \<comment> \<open>\<open>s.replace(a, b)\<close> with one-character strings: only the first occurrence is replaced\<close>
  "replace_char a b [] = []"
| "replace_char a b (c # cs) = (if c = a then b # cs else c # replace_char a b cs)"

definition toUpperCase :: "jsstring \<Rightarrow> jsstring" where
  \<comment> \<open>on the ASCII letters, the only letters the moving-average tag can hold\<close>
  "toUpperCase s = map (\<lambda>c. if 97 \<le> c \<and> c \<le> 122 then c - 32 else c) s"

section \<open>Regular expressions\<close>

text \<open>
  The regular expressions of the service, as a datatype, with the backtracking semantics
  of ECMAScript: \<open>matches r st\<close> lists the states in which a match of \<open>r\<close> started
  in \<open>st\<close> can end, in the order in which the engine tries them, so that the head of the
  list is the match the engine reports. A state holds the index reached, the rest of the
  input and the captures made so far. The datatype has the constructs that the patterns of
  the service use: a character class, the anchor \<open>^\<close>, sequence, alternation, the greedy
  quantifiers and the capture group. No pattern of the service has a capture group under a
  quantifier, so the reset of the captures at each iteration is left out.
\<close>

datatype regex =
    Cls "(nat \<times> nat) list"
  | Bol
  | Eps
  | Seq regex regex
  | Alt regex regex
  | Rep nat "nat option" regex
  | Grp nat regex

record mstate =
  pos :: nat
  rest :: jsstring
  caps :: "(nat \<times> jsstring) list"

text \<open>
  The greedy quantifier \<open>{mn,mx}\<close> (RepeatMatcher of the standard): one more iteration
  is tried first, the exit only when no iteration leads to a match and \<open>mn\<close> is
  exhausted; an iteration beyond \<open>mn\<close> that consumes nothing is rejected. Every level
  of the recursion lowers \<open>mn\<close> or consumes a code unit, so the recursion is on a
  bound, started at \<open>mn + length (rest st)\<close>, that never runs out before the
  iterations end (lemma \<open>repeat_fuel_enough\<close> below).
\<close>

primrec repeat :: "(mstate \<Rightarrow> mstate list) \<Rightarrow> nat \<Rightarrow> nat \<Rightarrow> nat option \<Rightarrow> mstate \<Rightarrow> mstate list" where
  "repeat m 0 mn mx st = (if mn = 0 then [st] else [])"
| "repeat m (Suc k) mn mx st =
     (if mx = Some 0 then [st]
      else concat (map (\<lambda>st'. if mn = 0 \<and> pos st' = pos st then []
                               else repeat m k (mn - 1) (map_option (\<lambda>j. j - 1) mx) st') (m st))
           @ (if mn = 0 then [st] else []))"

primrec matches :: "regex \<Rightarrow> mstate \<Rightarrow> mstate list" where
  "matches (Cls rs) st =
     (case rest st of [] \<Rightarrow> []
      | c # cs \<Rightarrow> if in_class rs c then [st\<lparr>pos := Suc (pos st), rest := cs\<rparr>] else [])"
| "matches Bol st = (if pos st = 0 then [st] else [])"
| "matches Eps st = [st]"
| "matches (Seq a b) st = concat (map (matches b) (matches a st))"
| "matches (Alt a b) st = matches a st @ matches b st"
| "matches (Rep mn mx a) st = repeat (matches a) (mn + length (rest st)) mn mx st"
| "matches (Grp i a) st =
     map (\<lambda>st'. st'\<lparr>caps := (i, take (pos st' - pos st) (rest st)) # caps st'\<rparr>) (matches a st)"

text \<open>A match object: the index of the match, the matched text, and the captures.\<close>

record rmatch =
  index :: nat
  matched :: jsstring
  groups :: "(nat \<times> jsstring) list"

definition mk_match :: "nat \<Rightarrow> jsstring \<Rightarrow> mstate \<Rightarrow> rmatch" where
  "mk_match n s m = \<lparr>index = n, matched = take (pos m - n) s, groups = caps m\<rparr>"

definition match_group :: "rmatch \<Rightarrow> nat \<Rightarrow> jsstring option" where
  \<comment> \<open>\<open>match[i]\<close>; \<open>None\<close> is \<open>undefined\<close>\<close>
  "match_group m i = map_of (groups m) i"

primrec search :: "regex \<Rightarrow> nat \<Rightarrow> jsstring \<Rightarrow> rmatch option" where
  \<comment> \<open>the first match at or after index \<open>n\<close>, \<open>s\<close> being the input from \<open>n\<close> on\<close>
  "search r n [] =
     (case matches r \<lparr>pos = n, rest = [], caps = []\<rparr> of [] \<Rightarrow> None
      | m # _ \<Rightarrow> Some (mk_match n [] m))"
| "search r n (c # cs) =
     (case matches r \<lparr>pos = n, rest = c # cs, caps = []\<rparr> of [] \<Rightarrow> search r (Suc n) cs
      | m # _ \<Rightarrow> Some (mk_match n (c # cs) m))"

definition match_first :: "regex \<Rightarrow> jsstring \<Rightarrow> rmatch option" where
  \<comment> \<open>\<open>text.match(r)\<close> for a pattern without the \<open>g\<close> flag; \<open>None\<close> is \<open>null\<close>\<close>
  "match_first r s = search r 0 s"

text \<open>
  The successive matches of a pattern with the \<open>g\<close> flag, left to right: after a match
  of length \<open>l\<close> at index \<open>n\<close> the next attempt is at \<open>lastIndex = n + l\<close>, so the
  \<open>l - 1\<close> code units after \<open>n\<close> are skipped (argument \<open>skip\<close>); after an empty match
  \<open>String.prototype.match\<close> moves on by one.
\<close>

primrec scan :: "regex \<Rightarrow> nat \<Rightarrow> nat \<Rightarrow> jsstring \<Rightarrow> rmatch list" where
  "scan r skip n [] =
     (if 0 < skip then []
      else case matches r \<lparr>pos = n, rest = [], caps = []\<rparr> of [] \<Rightarrow> []
           | m # _ \<Rightarrow> [mk_match n [] m])"
| "scan r skip n (c # cs) =
     (if 0 < skip then scan r (skip - 1) (Suc n) cs
      else case matches r \<lparr>pos = n, rest = c # cs, caps = []\<rparr> of [] \<Rightarrow> scan r 0 (Suc n) cs
           | m # _ \<Rightarrow> mk_match n (c # cs) m # scan r (pos m - n - 1) (Suc n) cs)"

definition match_all :: "regex \<Rightarrow> jsstring \<Rightarrow> jsstring list" where
  \<comment> \<open>\<open>text.match(r) || []\<close> for a pattern with the \<open>g\<close> flag: the matched texts\<close>
  "match_all r s = map matched (scan r 0 0 s)"

primrec replace_scan :: "regex \<Rightarrow> jsstring \<Rightarrow> nat \<Rightarrow> nat \<Rightarrow> jsstring \<Rightarrow> jsstring" where
  "replace_scan r rep skip n [] =
     (if 0 < skip then []
      else case matches r \<lparr>pos = n, rest = [], caps = []\<rparr> of [] \<Rightarrow> [] | m # _ \<Rightarrow> rep)"
| "replace_scan r rep skip n (c # cs) =
     (if 0 < skip then replace_scan r rep (skip - 1) (Suc n) cs
      else case matches r \<lparr>pos = n, rest = c # cs, caps = []\<rparr> of
             [] \<Rightarrow> c # replace_scan r rep 0 (Suc n) cs
           | m # _ \<Rightarrow>
               if pos m = n then rep @ c # replace_scan r rep 0 (Suc n) cs
               else rep @ replace_scan r rep (pos m - n - 1) (Suc n) cs)"

definition replace_all :: "regex \<Rightarrow> jsstring \<Rightarrow> jsstring \<Rightarrow> jsstring" where
  \<comment> \<open>\<open>s.replace(r, rep)\<close> for a pattern with the \<open>g\<close> flag\<close>
  "replace_all r rep s = replace_scan r rep 0 0 s"

definition replace_first :: "regex \<Rightarrow> jsstring \<Rightarrow> jsstring \<Rightarrow> jsstring" where
  \<comment> \<open>\<open>s.replace(r, rep)\<close> for a pattern without the \<open>g\<close> flag\<close>
  "replace_first r rep s =
     (case search r 0 s of None \<Rightarrow> s
      | Some m \<Rightarrow> take (index m) s @ rep @ drop (index m + length (matched m)) s)"

text \<open>
  For the proofs: the capture groups of a pattern, and what every end state of a match has
  in common with the state the match started in (the index only grows, the rest is a
  suffix of the rest, the captures are extended by groups of the pattern).
\<close>

primrec group_ids :: "regex \<Rightarrow> nat set" where
  "group_ids (Cls rs) = {}"
| "group_ids Bol = {}"
| "group_ids Eps = {}"
| "group_ids (Seq a b) = group_ids a \<union> group_ids b"
| "group_ids (Alt a b) = group_ids a \<union> group_ids b"
| "group_ids (Rep mn mx a) = group_ids a"
| "group_ids (Grp i a) = insert i (group_ids a)"

definition reach :: "nat set \<Rightarrow> mstate \<Rightarrow> mstate \<Rightarrow> bool" where
  "reach G st m =
     (pos st \<le> pos m \<and> pos m - pos st \<le> length (rest st) \<and>
      rest m = drop (pos m - pos st) (rest st) \<and>
      (\<exists>e. caps m = e @ caps st \<and> fst ` set e \<subseteq> G))"

text \<open>Building blocks of the patterns.\<close>

definition seqs :: "regex list \<Rightarrow> regex" where
  "seqs rs = foldr Seq rs Eps"

definition chr :: "nat \<Rightarrow> regex" where
  "chr c = Cls [(c, c)]"

definition chr_i :: "nat \<Rightarrow> regex" where
  \<comment> \<open>a pattern character under the \<open>i\<close> flag\<close>
  "chr_i c = (if 65 \<le> c \<and> c \<le> 90 then Cls [(c, c), (c + 32, c + 32)]
              else if 97 \<le> c \<and> c \<le> 122 then Cls [(c - 32, c - 32), (c, c)]
              else Cls [(c, c)])"

definition lit :: "jsstring \<Rightarrow> regex" where
  "lit s = seqs (map chr s)"

definition lit_i :: "jsstring \<Rightarrow> regex" where
  "lit_i s = seqs (map chr_i s)"

definition digit :: regex where
  \<comment> \<open>\<open>\d\<close>\<close>
  "digit = Cls [(48, 57)]"

definition sep :: regex where
  \<comment> \<open>\<open>[.,]\<close>\<close>
  "sep = Cls [(46, 46), (44, 44)]"

definition rx_star :: "regex \<Rightarrow> regex" where
  \<comment> \<open>\<open>r*\<close>\<close>
  "rx_star r = Rep 0 None r"

definition rx_plus :: "regex \<Rightarrow> regex" where
  \<comment> \<open>\<open>r+\<close>\<close>
  "rx_plus r = Rep 1 None r"

definition rx_opt :: "regex \<Rightarrow> regex" where
  \<comment> \<open>\<open>r?\<close>\<close>
  "rx_opt r = Rep 0 (Some 1) r"

definition rx_rep :: "nat \<Rightarrow> nat \<Rightarrow> regex \<Rightarrow> regex" where
  \<comment> \<open>\<open>r{mn,mx}\<close>\<close>
  "rx_rep mn mx r = Rep mn (Some mx) r"

definition space :: regex where
  \<comment> \<open>\<open>\s\<close>\<close>
  "space = Cls ws_ranges"

definition label_gap :: regex where
  \<comment> \<open>\<open>[\s:=]*\<close>\<close>
  "label_gap = rx_star (Cls ((58, 58) # (61, 61) # ws_ranges))"

section \<open>Numbers\<close>

text \<open>
  A JavaScript number is modelled by the rational it denotes: a decimal numeral is read
  exactly and \<open>toFixed\<close> rounds the exact value. \<open>NaN\<close>, the result of
  \<open>parseFloat\<close> on a string that starts with no numeral, is \<open>None\<close>. Binary
  rounding of the double, infinities and the exponent notation are not part of the
  model; no string that reaches \<open>parseFloat\<close> in this service holds a letter.
\<close>

definition digits_val :: "jsstring \<Rightarrow> nat" where
  "digits_val ds = foldl (\<lambda>a c. 10 * a + (c - 48)) 0 ds"

definition parseFloat :: "jsstring \<Rightarrow> rat option" where
  "parseFloat s =
     (let t = dropWhile is_ws s;
          neg = (case t of [] \<Rightarrow> False | c # _ \<Rightarrow> c = 45);
          u = (case t of [] \<Rightarrow> [] | c # cs \<Rightarrow> if c = 45 \<or> c = 43 then cs else t);
          ip = takeWhile is_digit u;
          v = dropWhile is_digit u;
          fp = (case v of [] \<Rightarrow> [] | c # cs \<Rightarrow> if c = 46 then takeWhile is_digit cs else []);
          x = of_nat (digits_val ip) + of_nat (digits_val fp) / 10 ^ length fp
      in if ip = [] \<and> fp = [] then None else Some (if neg then - x else x))"

fun digits_of :: "nat \<Rightarrow> jsstring" where
  "digits_of n = (if n < 10 then [48 + n] else digits_of (n div 10) @ [48 + n mod 10])"

definition toFixed :: "rat \<Rightarrow> nat \<Rightarrow> jsstring" where
  \<comment> \<open>\<open>x.toFixed(p)\<close>: the nearest multiple of \<open>10^-p\<close>, the larger one at a tie\<close>
  "toFixed x p =
     (let a = \<bar>x\<bar>;
          n = nat \<lfloor>a * 10 ^ p + 1 / 2\<rfloor>;
          ip = digits_of (n div 10 ^ p);
          fp = digits_of (n mod 10 ^ p);
          body = (if p = 0 then ip else ip @ [46] @ replicate (p - length fp) 48 @ fp)
      in if x < 0 then 45 # body else body)"

section \<open>Parsing the recognised text\<close>

record extracted =
  priceLevels :: "rat list"
  indicators :: "(jsstring \<times> rat) list"
  labels :: "jsstring list"
  hasData :: bool

record ocr_result =
  rawText :: jsstring
  extractedData :: extracted

text \<open>
  An object whose keys are assigned one by one is an association list in insertion
  order: assigning to a key that exists replaces its value in place.
\<close>

primrec set_prop :: "'k \<Rightarrow> 'v \<Rightarrow> ('k \<times> 'v) list \<Rightarrow> ('k \<times> 'v) list" where
  "set_prop k v [] = [(k, v)]"
| "set_prop k v (p # ps) = (if fst p = k then (k, v) # ps else p # set_prop k v ps)"

definition Set_add :: "'a list \<Rightarrow> 'a \<Rightarrow> 'a list" where
  "Set_add seen x = (if x \<in> set seen then seen else seen @ [x])"

definition new_Set :: "'a list \<Rightarrow> 'a list" where
  \<comment> \<open>\<open>[...new Set(xs)]\<close>: the elements in the order of their first occurrence\<close>
  "new_Set xs = foldl Set_add [] xs"

definition pricePatterns :: "regex list" where
  "pricePatterns =
     [Grp 1 (seqs [rx_rep 1 6 digit, sep, rx_rep 2 5 digit]),
      Grp 1 (seqs [rx_rep 1 3 digit, rx_star (seqs [sep, rx_rep 3 3 digit]), sep, rx_rep 2 2 digit]),
      Grp 1 (seqs [Cls [(36, 36), (8364, 8364), (163, 163), (165, 165)], rx_star space,
                   Grp 2 (seqs [rx_plus digit, sep, rx_plus digit])])]"

definition cleanPattern :: regex where
  \<comment> \<open>\<open>/[$,\<dots>\s]/g\<close>: dollar, comma, euro, pound, yen, white space\<close>
  "cleanPattern = Cls ((36, 36) # (44, 44) # (8364, 8364) # (163, 163) # (165, 165) # ws_ranges)"

definition price_of_match :: "jsstring \<Rightarrow> rat list" where
  \<comment> \<open>the body of the inner \<open>forEach\<close>: what one match pushes on \<open>allPrices\<close>; the
      rounded number is never \<open>NaN\<close> (lemma \<open>parseFloat_toFixed\<close> below)\<close>
  "price_of_match m =
     (let clean = replace_all cleanPattern [] m;
          normalized = replace_char 44 46 clean
      in case parseFloat normalized of
           None \<Rightarrow> []
         | Some num \<Rightarrow>
             if 0 < num then
               (let precision = (if num < 10 then 5 else if num < 1000 then 4 else 2)
                in case parseFloat (toFixed num precision) of None \<Rightarrow> [] | Some rounded \<Rightarrow> [rounded])
             else [])"

definition allPrices :: "jsstring \<Rightarrow> rat list" where
  "allPrices text = concat (map (\<lambda>pattern. concat (map price_of_match (match_all pattern text))) pricePatterns)"

definition number_pattern :: "nat \<Rightarrow> nat \<Rightarrow> regex" where
  \<comment> \<open>\<open>\d{1,n}(?:[.,]\d{1,k})?\<close>\<close>
  "number_pattern n k = seqs [rx_rep 1 n digit, rx_opt (seqs [sep, rx_rep 1 k digit])]"

definition rsiPatterns :: "regex list" where
  "rsiPatterns =
     [seqs [lit_i (str ''RSI''), label_gap, Grp 1 (number_pattern 3 2)],
      seqs [lit_i (str ''Relative Strength Index''), label_gap, Grp 1 (number_pattern 3 2)]]"

definition macdPattern :: regex where
  "macdPattern = seqs [lit_i (str ''MACD''), label_gap,
                       Grp 1 (seqs [rx_opt (chr 45), number_pattern 6 5])]"

definition maPattern :: regex where
  "maPattern = seqs [Grp 1 (Alt (lit_i (str ''MA'')) (Alt (lit_i (str ''SMA'')) (lit_i (str ''EMA'')))),
                     label_gap, Grp 2 (number_pattern 6 5)]"

definition capture_value :: "rmatch \<Rightarrow> nat \<Rightarrow> rat option" where
  \<comment> \<open>\<open>parseFloat(match[i].replace(',', '.'))\<close>, for a capture that is there and not empty\<close>
  "capture_value m i =
     (case match_group m i of None \<Rightarrow> None
      | Some g \<Rightarrow> if g = [] then None else parseFloat (replace_char 44 46 g))"

primrec rsi_loop :: "regex list \<Rightarrow> jsstring \<Rightarrow> (jsstring \<times> rat) list \<Rightarrow> (jsstring \<times> rat) list" where
  "rsi_loop [] text ind = ind"
| "rsi_loop (pattern # ps) text ind =
     (case match_first pattern text of
        None \<Rightarrow> rsi_loop ps text ind
      | Some m \<Rightarrow>
          (case capture_value m 1 of
             None \<Rightarrow> rsi_loop ps text ind
           | Some v \<Rightarrow>
               if 0 \<le> v \<and> v \<le> 100 then set_prop (str ''RSI'') v ind
               else rsi_loop ps text ind))"

definition macd_step :: "jsstring \<Rightarrow> (jsstring \<times> rat) list \<Rightarrow> (jsstring \<times> rat) list" where
  "macd_step text ind =
     (case match_first macdPattern text of
        None \<Rightarrow> ind
      | Some m \<Rightarrow> (case capture_value m 1 of None \<Rightarrow> ind | Some v \<Rightarrow> set_prop (str ''MACD'') v ind))"

text \<open>
  The \<open>while\<close> loop over \<open>maPattern.exec(text)\<close> visits the successive matches of
  the pattern. A match of this pattern is never empty (lemma \<open>maPattern_match\<close> below),
  so \<open>lastIndex\<close> grows with every round, the loop ends, and the matches it visits are
  those of \<open>scan\<close>.
\<close>

primrec ma_loop :: "rmatch list \<Rightarrow> (jsstring \<times> rat) list \<Rightarrow> (jsstring \<times> rat) list" where
  \<comment> \<open>the \<open>while\<close> loop over the successive results of \<open>maPattern.exec(text)\<close>\<close>
  "ma_loop [] ind = ind"
| "ma_loop (m # ms) ind =
     (case match_group m 1 of
        None \<Rightarrow> ma_loop ms ind
      | Some tag \<Rightarrow>
          (case (case match_group m 2 of None \<Rightarrow> None | Some g \<Rightarrow> parseFloat (replace_char 44 46 g)) of
             None \<Rightarrow> ma_loop ms ind
           | Some v \<Rightarrow> ma_loop ms (set_prop (toUpperCase tag) v ind)))"

text \<open>
  The words of the specification on the RSI: each labelled pattern yields the number its
  first match holds, and the first of these numbers that lies in the range 0 to 100 is
  the one recorded.
\<close>

definition rsi_candidate :: "regex \<Rightarrow> jsstring \<Rightarrow> rat option" where
  "rsi_candidate p text = (case match_first p text of None \<Rightarrow> None | Some m \<Rightarrow> capture_value m 1)"

definition first_valid_rsi :: "jsstring \<Rightarrow> rat option" where
  "first_valid_rsi text =
     find (\<lambda>v. 0 \<le> v \<and> v \<le> 100) (List.map_filter (\<lambda>p. rsi_candidate p text) rsiPatterns)"

definition parseOCRText :: "jsstring \<Rightarrow> ocr_result" where
  "parseOCRText text =
     (let prices = take 15 (sort (new_Set (allPrices text)));
          ind1 = rsi_loop rsiPatterns text [];
          ind2 = macd_step text ind1;
          ind3 = ma_loop (scan maPattern 0 0 text) ind2
      in \<lparr>rawText = substring0 text 1500,
          extractedData = \<lparr>priceLevels = prices, indicators = ind3, labels = [],
                            hasData = (0 < length prices \<or> 0 < length ind3)\<rparr>\<rparr>)"


section \<open>Values, errors and JSON\<close>

text \<open>
  The values that travel between the remote service, the validator and the caller are
  the values of JSON, with \<open>undefined\<close> for a property that is not there. An object
  is the list of its own properties in insertion order. A thrown \<open>Error\<close> is its
  message; the messages of the errors the engine itself throws (TypeError, SyntaxError)
  are the engine's, and nothing below depends on their text.
\<close>

datatype jsval =
    JUndefined
  | JNull
  | JBool bool
  | JNum rat
  | JStr jsstring
  | JArr "jsval list"
  | JObj "(jsstring \<times> jsval) list"

datatype js_error = Error (message: jsstring)

definition and_then :: "js_error + 'a \<Rightarrow> ('a \<Rightarrow> js_error + 'b) \<Rightarrow> js_error + 'b" where
  \<comment> \<open>sequencing inside a \<open>try\<close> block: the first error ends the block\<close>
  "and_then r k = (case r of Inl e \<Rightarrow> Inl e | Inr x \<Rightarrow> k x)"

definition attempt :: "js_error option \<Rightarrow> (js_error + 'a) \<Rightarrow> js_error + 'a" where
  \<comment> \<open>a call made for its effect, then the rest of the block\<close>
  "attempt r k = (case r of Some e \<Rightarrow> Inl e | None \<Rightarrow> k)"

fun truthy :: "jsval \<Rightarrow> bool" where
  "truthy JUndefined = False"
| "truthy JNull = False"
| "truthy (JBool b) = b"
| "truthy (JNum x) = (x \<noteq> 0)"
| "truthy (JStr s) = (s \<noteq> [])"
| "truthy (JArr vs) = True"
| "truthy (JObj ps) = True"

fun prop_of :: "jsval \<Rightarrow> jsstring \<Rightarrow> jsval" where
  \<comment> \<open>\<open>v.k\<close> for a value that is neither \<open>null\<close> nor \<open>undefined\<close> and a key that is no
      index, not \<open>length\<close> and no name of a prototype: only an object can have it\<close>
  "prop_of (JObj ps) k = (case map_of ps k of None \<Rightarrow> JUndefined | Some v \<Rightarrow> v)"
| "prop_of v k = JUndefined"

definition type_error_read :: "jsval \<Rightarrow> jsstring \<Rightarrow> js_error" where
  "type_error_read v k =
     Error (str ''Cannot read properties of '' @ (if v = JNull then str ''null'' else str ''undefined'')
            @ str '' (reading '' @ [39] @ k @ [39] @ str '')'')"

definition get_prop :: "jsval \<Rightarrow> jsstring \<Rightarrow> js_error + jsval" where
  \<comment> \<open>\<open>v.k\<close>: a TypeError on \<open>null\<close> and \<open>undefined\<close>\<close>
  "get_prop v k = (if v = JUndefined \<or> v = JNull then Inl (type_error_read v k) else Inr (prop_of v k))"

definition get_first :: "jsval \<Rightarrow> js_error + jsval" where
  \<comment> \<open>\<open>v[0]\<close>\<close>
  "get_first v =
     (case v of
        JUndefined \<Rightarrow> Inl (type_error_read v (str ''0''))
      | JNull \<Rightarrow> Inl (type_error_read v (str ''0''))
      | JArr vs \<Rightarrow> Inr (case vs of [] \<Rightarrow> JUndefined | x # _ \<Rightarrow> x)
      | JStr s \<Rightarrow> Inr (case s of [] \<Rightarrow> JUndefined | c # _ \<Rightarrow> JStr [c])
      | _ \<Rightarrow> Inr (prop_of v (str ''0'')))"

definition set_field :: "jsval \<Rightarrow> jsstring \<Rightarrow> jsval \<Rightarrow> jsval" where
  \<comment> \<open>\<open>o.k = v\<close> on an object\<close>
  "set_field ob k v = (case ob of JObj ps \<Rightarrow> JObj (set_prop k v ps) | _ \<Rightarrow> ob)"

definition spread :: "jsval \<Rightarrow> (jsstring \<times> jsval) list" where
  \<comment> \<open>the properties that \<open>{...v}\<close> copies\<close>
  "spread v =
     (case v of
        JObj ps \<Rightarrow> ps
      | JArr vs \<Rightarrow> map (\<lambda>(i, x). (digits_of i, x)) (enumerate 0 vs)
      | JStr s \<Rightarrow> map (\<lambda>(i, c). (digits_of i, JStr [c])) (enumerate 0 s)
      | _ \<Rightarrow> [])"

definition jstr :: "string \<Rightarrow> jsval" where
  "jstr s = JStr (str s)"

definition jobj :: "(string \<times> jsval) list \<Rightarrow> jsval" where
  \<comment> \<open>an object literal with ASCII keys\<close>
  "jobj ps = JObj (map (\<lambda>(k, v). (str k, v)) ps)"

subsection \<open>\<open>JSON.parse\<close>\<close>

text \<open>
  \<open>JSON.parse\<close> in two passes: the text is cut into tokens, and the tokens are read by
  a machine with a stack of the arrays and objects that are open. A key given twice keeps
  its first place and its last value, as in the engine.
\<close>

datatype token = TLBrace | TRBrace | TLBracket | TRBracket | TColon | TComma | TValue jsval

definition is_json_ws :: "nat \<Rightarrow> bool" where
  "is_json_ws c = (c = 32 \<or> c = 9 \<or> c = 10 \<or> c = 13)"

definition hex_val :: "nat \<Rightarrow> nat option" where
  "hex_val c = (if 48 \<le> c \<and> c \<le> 57 then Some (c - 48)
                else if 97 \<le> c \<and> c \<le> 102 then Some (c - 87)
                else if 65 \<le> c \<and> c \<le> 70 then Some (c - 55)
                else None)"

definition escape_char :: "nat \<Rightarrow> nat option" where
  \<comment> \<open>the character after a backslash: quote, backslash, slash, b, f, n, r, t\<close>
  "escape_char e = (if e = 34 \<or> e = 92 \<or> e = 47 then Some e
                    else if e = 98 then Some 8
                    else if e = 102 then Some 12
                    else if e = 110 then Some 10
                    else if e = 114 then Some 13
                    else if e = 116 then Some 9
                    else None)"

fun lex_string :: "jsstring \<Rightarrow> (jsstring \<times> jsstring) option" where
  \<comment> \<open>after the opening quote: the string's code units and the text after the closing quote\<close>
  "lex_string [] = None"
| "lex_string (c # cs) =
     (if c = 34 then Some ([], cs)
      else if c = 92 then
        (case cs of
           [] \<Rightarrow> None
         | e # es \<Rightarrow>
             if e = 117 then
               (case es of
                  a # b # c' # d # r \<Rightarrow>
                    (case (hex_val a, hex_val b, hex_val c', hex_val d) of
                       (Some x, Some y, Some z, Some w) \<Rightarrow>
                         map_option (\<lambda>(s, t). ((((x * 16 + y) * 16 + z) * 16 + w) # s, t)) (lex_string r)
                     | _ \<Rightarrow> None)
                | _ \<Rightarrow> None)
             else (case escape_char e of
                     None \<Rightarrow> None
                   | Some u \<Rightarrow> map_option (\<lambda>(s, t). (u # s, t)) (lex_string es)))
      else if c < 32 then None
      else map_option (\<lambda>(s, t). (c # s, t)) (lex_string cs))"

definition lex_number :: "jsstring \<Rightarrow> (rat \<times> jsstring) option" where
  \<comment> \<open>\<open>-? (0 | [1-9] digits) (. digits)? ([eE] [+-]? digits)?\<close> and the text after it\<close>
  "lex_number s =
     (let neg = (case s of [] \<Rightarrow> False | c # _ \<Rightarrow> c = 45);
          s1 = (if neg then tl s else s);
          ip = takeWhile is_digit s1;
          s2 = dropWhile is_digit s1;
          has_frac = (case s2 of [] \<Rightarrow> False | c # _ \<Rightarrow> c = 46);
          fp = (if has_frac then takeWhile is_digit (tl s2) else []);
          s3 = (if has_frac then dropWhile is_digit (tl s2) else s2);
          has_exp = (case s3 of [] \<Rightarrow> False | c # _ \<Rightarrow> c = 101 \<or> c = 69);
          s4 = (if has_exp then tl s3 else s3);
          eneg = (case s4 of [] \<Rightarrow> False | c # _ \<Rightarrow> has_exp \<and> c = 45);
          s5 = (if has_exp \<and> (case s4 of [] \<Rightarrow> False | c # _ \<Rightarrow> c = 45 \<or> c = 43) then tl s4 else s4);
          ep = (if has_exp then takeWhile is_digit s5 else []);
          s6 = (if has_exp then dropWhile is_digit s5 else s3);
          mant = of_nat (digits_val ip) + of_nat (digits_val fp) / 10 ^ length fp;
          x = (if eneg then mant / 10 ^ digits_val ep else mant * 10 ^ digits_val ep)
      in if ip = [] \<or> (1 < length ip \<and> hd ip = 48) \<or> (has_frac \<and> fp = []) \<or> (has_exp \<and> ep = [])
         then None
         else Some (if neg then - x else x, s6))"

lemma lex_string_shorter: "lex_string s = Some (a, r) \<Longrightarrow> length r < length s"
proof (induction s arbitrary: a r rule: lex_string.induct)
  case 1
  then show ?case by simp
next
  case (2 c cs)
  then show ?case
    by (fastforce split: if_splits list.splits option.splits)
qed

lemma lex_number_shorter: "lex_number s = Some (x, r) \<Longrightarrow> length r < length s"
proof -
  assume a: "lex_number s = Some (x, r)"
  define s1 where "s1 = (if (case s of [] \<Rightarrow> False | c # _ \<Rightarrow> c = 45) then tl s else s)"
  define s2 where "s2 = dropWhile is_digit s1"
  have l1: "length s1 \<le> length s" by (simp add: s1_def)
  from a have ne: "takeWhile is_digit s1 \<noteq> []"
    by (auto simp: lex_number_def Let_def s1_def split: if_splits)
  have "length (takeWhile is_digit s1) + length s2 = length s1"
    unfolding s2_def by (metis length_append takeWhile_dropWhile_id)
  with ne have l2: "length s2 < length s1" by (cases "takeWhile is_digit s1") auto
  have dw: "length (dropWhile is_digit t) \<le> length t" for t :: jsstring
    by (rule length_dropWhile_le)
  have tl_le: "length (tl t) \<le> length t" for t :: jsstring by simp
  from a have "length r \<le> length s2"
    unfolding lex_number_def Let_def s1_def [symmetric] s2_def [symmetric]
    by (auto split: if_splits intro: order_trans [OF dw] order_trans [OF dw tl_le]
        order_trans [OF dw order_trans [OF tl_le order_trans [OF dw tl_le]]]
        order_trans [OF dw order_trans [OF tl_le order_trans [OF tl_le order_trans [OF dw tl_le]]]]
        order_trans [OF dw order_trans [OF tl_le dw]]
        order_trans [OF dw order_trans [OF tl_le order_trans [OF tl_le dw]]])
  with l1 l2 show ?thesis by simp
qed

function lex :: "jsstring \<Rightarrow> token list option" where
  "lex [] = Some []"
| "lex (c # cs) =
     (if is_json_ws c then lex cs
      else if c = 123 then map_option ((#) TLBrace) (lex cs)
      else if c = 125 then map_option ((#) TRBrace) (lex cs)
      else if c = 91 then map_option ((#) TLBracket) (lex cs)
      else if c = 93 then map_option ((#) TRBracket) (lex cs)
      else if c = 58 then map_option ((#) TColon) (lex cs)
      else if c = 44 then map_option ((#) TComma) (lex cs)
      else if c = 34 then
        (case lex_string cs of
           None \<Rightarrow> None
         | Some (s, r) \<Rightarrow> map_option ((#) (TValue (JStr s))) (lex r))
      else if c = 45 \<or> is_digit c then
        (case lex_number (c # cs) of
           None \<Rightarrow> None
         | Some (x, r) \<Rightarrow> map_option ((#) (TValue (JNum x))) (lex r))
      else if take 4 (c # cs) = str ''true'' then map_option ((#) (TValue (JBool True))) (lex (drop 3 cs))
      else if take 5 (c # cs) = str ''false'' then map_option ((#) (TValue (JBool False))) (lex (drop 4 cs))
      else if take 4 (c # cs) = str ''null'' then map_option ((#) (TValue JNull)) (lex (drop 3 cs))
      else None)"
  by pat_completeness auto
termination
proof (relation "measure length")
  show "wf (measure length)" by simp
qed (auto dest: lex_string_shorter lex_number_shorter)

datatype frame =
    FArr "jsval list"
  | FObj "(jsstring \<times> jsval) list"
  | FKey "(jsstring \<times> jsval) list" jsstring

datatype expect = EValue | EValueOrClose | EKeyOrClose | EKey | EColon | ESep | EDone jsval

fun deliver :: "jsval \<Rightarrow> frame list \<Rightarrow> (expect \<times> frame list) option" where
  \<comment> \<open>a value is complete: it is the result, an element of the open array, or the value of
      the pending key\<close>
  "deliver v [] = Some (EDone v, [])"
| "deliver v (FArr vs # fs) = Some (ESep, FArr (vs @ [v]) # fs)"
| "deliver v (FKey ms k # fs) = Some (ESep, FObj (set_prop k v ms) # fs)"
| "deliver v (FObj ms # fs) = None"

fun start_value :: "token \<Rightarrow> frame list \<Rightarrow> (expect \<times> frame list) option" where
  "start_value (TValue v) fs = deliver v fs"
| "start_value TLBracket fs = Some (EValueOrClose, FArr [] # fs)"
| "start_value TLBrace fs = Some (EKeyOrClose, FObj [] # fs)"
| "start_value t fs = None"

fun read_key :: "token \<Rightarrow> frame list \<Rightarrow> (expect \<times> frame list) option" where
  "read_key (TValue (JStr k)) (FObj ms # fs) = Some (EColon, FKey ms k # fs)"
| "read_key t fs = None"

fun close_frame :: "token \<Rightarrow> frame list \<Rightarrow> (expect \<times> frame list) option" where
  "close_frame TRBracket (FArr vs # fs) = deliver (JArr vs) fs"
| "close_frame TRBrace (FObj ms # fs) = deliver (JObj ms) fs"
| "close_frame t fs = None"

fun parse_step :: "expect \<times> frame list \<Rightarrow> token \<Rightarrow> (expect \<times> frame list) option" where
  "parse_step (EValue, fs) t = start_value t fs"
| "parse_step (EValueOrClose, fs) t = (if t = TRBracket then close_frame t fs else start_value t fs)"
| "parse_step (EKeyOrClose, fs) t = (if t = TRBrace then close_frame t fs else read_key t fs)"
| "parse_step (EKey, fs) t = read_key t fs"
| "parse_step (EColon, fs) t = (if t = TColon then Some (EValue, fs) else None)"
| "parse_step (ESep, fs) t =
     (if t = TComma then
        (case fs of FArr vs # _ \<Rightarrow> Some (EValue, fs) | FObj ms # _ \<Rightarrow> Some (EKey, fs) | _ \<Rightarrow> None)
      else close_frame t fs)"
| "parse_step (EDone v, fs) t = None"

primrec parse_tokens :: "expect \<times> frame list \<Rightarrow> token list \<Rightarrow> (expect \<times> frame list) option" where
  "parse_tokens st [] = Some st"
| "parse_tokens st (t # ts) = (case parse_step st t of None \<Rightarrow> None | Some st' \<Rightarrow> parse_tokens st' ts)"

definition syntax_error :: js_error where
  "syntax_error = Error (str ''Unexpected token in JSON'')"

definition JSON_parse :: "jsstring \<Rightarrow> js_error + jsval" where
  "JSON_parse s =
     (case lex s of
        None \<Rightarrow> Inl syntax_error
      | Some ts \<Rightarrow>
          (case parse_tokens (EValue, []) ts of
             Some (EDone v, fs) \<Rightarrow> Inr v
           | _ \<Rightarrow> Inl syntax_error))"

section \<open>The analysis service\<close>

subsection \<open>Constants\<close>

definition TRADING_PAIRS :: "jsstring list" where
  "TRADING_PAIRS = map str [''XAUUSD'', ''EURUSD'', ''BTCUSD'', ''GBPUSD'', ''USDJPY'', ''ETHUSD'',
                            ''US30'', ''NAS100'']"

definition DISCLAIMER :: jsstring where
  \<comment> \<open>the text starts with the warning sign, U+26A0 U+FE0F\<close>
  "DISCLAIMER = [9888, 65039] @ str '' This is AI-generated analysis for educational purposes only. Trading involves substantial risk of loss. Past performance is not indicative of future results.''"

subsection \<open>The fallback result\<close>

text \<open>
  \<open>now\<close> is the reading of \<open>new Date().toISOString()\<close> when the result is built. The
  first three parameters are not used by the body, as in the source.
\<close>

definition getFallbackAnalysis ::
  "jsstring \<Rightarrow> jsstring \<Rightarrow> jsstring \<Rightarrow> jsstring \<Rightarrow> js_error \<Rightarrow> nat \<Rightarrow> jsval" where
  "getFallbackAnalysis now symbol timeframe tradeType error requestId =
     jobj [
       (''vision_summary'', jobj [
          (''trend_structure'', jstr ''Analysis failed''),
          (''trend_confidence'', jstr ''low''),
          (''support_zone'', jobj [
             (''level'', jstr ''N/A''),
             (''description'', jstr ''Technical analysis incomplete''),
             (''confidence'', jstr ''low'')]),
          (''resistance_zone'', jobj [
             (''level'', jstr ''N/A''),
             (''description'', jstr ''Technical analysis incomplete''),
             (''confidence'', jstr ''low'')]),
          (''rsi'', jobj [
             (''approx_value'', jstr ''N/A''),
             (''status'', jstr ''unknown''),
             (''divergence'', JBool False)]),
          (''macd'', jobj [
             (''cross'', jstr ''unknown''),
             (''histogram'', jstr ''unknown''),
             (''momentum'', jstr ''unknown'')]),
          (''key_notes'', jstr ''Unable to complete technical analysis. Please ensure chart image is clear, well-lit, and contains visible price/indicator data.'')]),
       (''decision'', jobj [
          (''action'', jstr ''HOLD''),
          (''entry'', jstr ''N/A''),
          (''sl'', jstr ''N/A''),
          (''tp1'', jstr ''N/A''),
          (''tp2'', jstr ''N/A''),
          (''probability'', jstr ''0%''),
          (''risk_reward'', jstr ''N/A''),
          (''reason'', JStr (str ''Technical analysis failed: ''
              @ (if message error = [] then str ''Insufficient or unclear chart data'' else message error)
              @ str ''. Please upload a clearer screenshot with visible price levels.'')),
          (''invalid_if'', jstr ''N/A'')]),
       (''risk_assessment'', jobj [
          (''level'', jstr ''high''),
          (''recommended_position'', jstr ''none''),
          (''timeframe_suitability'', jstr ''poor'')]),
       (''error'', jobj [
          (''message'', JStr (if message error = [] then str ''Analysis failed'' else message error)),
          (''requestId'', JNum (of_nat requestId)),
          (''timestamp'', JStr now)])]"

subsection \<open>Validating the reply\<close>

definition fence_json_pattern :: regex where
  \<comment> \<open>three backquotes, \<open>json\<close>, white space; flags \<open>gi\<close>\<close>
  "fence_json_pattern = seqs [lit_i (str ''```json''), rx_star space]"

definition fence_pattern :: regex where
  \<comment> \<open>three backquotes, white space; flags \<open>gi\<close>\<close>
  "fence_pattern = seqs [lit_i (str ''```''), rx_star space]"

definition json_tag_pattern :: regex where
  \<comment> \<open>\<open>json\<close> at the start of the text, white space; flag \<open>i\<close>\<close>
  "json_tag_pattern = seqs [Bol, lit_i (str ''json''), rx_star space]"

definition clean_reply :: "jsstring \<Rightarrow> jsstring" where
  "clean_reply content =
     trim (replace_first json_tag_pattern []
            (replace_all fence_pattern [] (replace_all fence_json_pattern [] content)))"

definition string_receiver :: "jsval \<Rightarrow> jsstring \<Rightarrow> js_error + jsstring" where
  \<comment> \<open>the receiver of a call of a string method: anything but a string has no such method\<close>
  "string_receiver v name =
     (case v of
        JStr s \<Rightarrow> Inr s
      | JUndefined \<Rightarrow> Inl (type_error_read v name)
      | JNull \<Rightarrow> Inl (type_error_read v name)
      | _ \<Rightarrow> Inl (Error (str ''content.'' @ name @ str '' is not a function'')))"

definition api_usage_of :: "jsval \<Rightarrow> jsval" where
  "api_usage_of usage =
     jobj [(''prompt_tokens'', prop_of usage (str ''prompt_tokens'')),
           (''completion_tokens'', prop_of usage (str ''completion_tokens'')),
           (''total_tokens'', prop_of usage (str ''total_tokens''))]"

definition reply_content :: "jsval \<Rightarrow> js_error + jsval" where
  \<comment> \<open>\<open>apiResponse.choices[0].message.content\<close>\<close>
  "reply_content apiResponse =
     and_then (get_prop apiResponse (str ''choices'')) (\<lambda>choices.
     and_then (get_first choices) (\<lambda>choice.
     and_then (get_prop choice (str ''message'')) (\<lambda>msg.
       get_prop msg (str ''content''))))"

definition reply_usage :: "jsval \<Rightarrow> jsval" where
  \<comment> \<open>\<open>apiResponse.usage || {}\<close>, read after \<open>apiResponse.choices\<close> has been\<close>
  "reply_usage apiResponse =
     (let usage = prop_of apiResponse (str ''usage'') in if truthy usage then usage else JObj [])"

definition invalid_structure :: js_error where
  \<comment> \<open>\<open>new Error('Invalid response structure from AI')\<close>, thrown when either field is falsy\<close>
  "invalid_structure = Error (str ''Invalid response structure from AI'')"

definition parseAIResponse_try :: "jsval \<Rightarrow> js_error + jsval" where
  \<comment> \<open>the \<open>try\<close> block of \<open>parseAIResponse\<close>\<close>
  "parseAIResponse_try apiResponse =
     and_then (reply_content apiResponse) (\<lambda>content.
       let usage = reply_usage apiResponse in
     and_then (string_receiver content (str ''replace'')) (\<lambda>text.
     and_then (JSON_parse (clean_reply text)) (\<lambda>parsedData.
     and_then (get_prop parsedData (str ''decision'')) (\<lambda>decision.
       if \<not> truthy decision then Inl invalid_structure
       else
     and_then (get_prop parsedData (str ''vision_summary'')) (\<lambda>vision_summary.
       if \<not> truthy vision_summary then Inl invalid_structure
       else Inr (set_field (set_field parsedData (str ''disclaimer'') (JStr DISCLAIMER))
                   (str ''api_usage'') (api_usage_of usage)))))))"

definition parseAIResponse :: "jsstring \<Rightarrow> jsval \<Rightarrow> nat \<Rightarrow> jsval" where
  "parseAIResponse now apiResponse requestId =
     (case parseAIResponse_try apiResponse of
        Inr parsedData \<Rightarrow> parsedData
      | Inl error \<Rightarrow>
          getFallbackAnalysis now (str ''Unknown'') (str ''Unknown'') (str ''Unknown'') error requestId)"

subsection \<open>Preprocessing the image\<close>

text \<open>
  The image library is outside the service: what each of its calls does on the image at
  hand is an input of the model. A call made for its effect on the pipeline either
  raises or returns; \<open>toBuffer\<close> raises or returns the processed bytes. A buffer is
  the list of its bytes, each a number.
\<close>

type_synonym bytes = "nat list"

record image_info =
  width :: nat
  height :: nat

record sharp_world =
  sharp_res :: "js_error option"
  metadata_res :: "js_error + image_info"
  resize_res :: "js_error option"
  grayscale_res :: "js_error option"
  normalise_res :: "js_error option"
  sharpen_res :: "js_error option"
  median_res :: "js_error option"
  toBuffer_res :: "js_error + bytes"

definition preprocessImage_try :: "sharp_world \<Rightarrow> js_error + bytes" where
  \<comment> \<open>the \<open>try\<close> block of \<open>preprocessImage\<close>\<close>
  "preprocessImage_try sh =
     attempt (sharp_res sh)
       (and_then (metadata_res sh) (\<lambda>imageInfo.
          attempt (if 2000 < width imageInfo \<or> 2000 < height imageInfo then resize_res sh else None)
            (attempt (grayscale_res sh)
               (attempt (normalise_res sh)
                  (attempt (sharpen_res sh)
                     (attempt (median_res sh)
                        (toBuffer_res sh)))))))"

definition preprocessImage :: "sharp_world \<Rightarrow> bytes \<Rightarrow> bytes" where
  "preprocessImage sh imageBuffer =
     (case preprocessImage_try sh of Inr processed \<Rightarrow> processed | Inl error \<Rightarrow> imageBuffer)"

text \<open>
  The words of the specification: some step of the preprocessing fails. A step that is
  not reached, or a resize that the size of the image does not ask for, cannot fail.
\<close>

definition resize_needed :: "sharp_world \<Rightarrow> bool" where
  "resize_needed sh =
     (case metadata_res sh of Inl e \<Rightarrow> False
      | Inr info \<Rightarrow> 2000 < width info \<or> 2000 < height info)"

definition some_step_fails :: "sharp_world \<Rightarrow> bool" where
  "some_step_fails sh =
     (sharp_res sh \<noteq> None \<or> isl (metadata_res sh) \<or> (resize_needed sh \<and> resize_res sh \<noteq> None) \<or>
      grayscale_res sh \<noteq> None \<or> normalise_res sh \<noteq> None \<or> sharpen_res sh \<noteq> None \<or>
      median_res sh \<noteq> None \<or> isl (toBuffer_res sh))"

subsection \<open>Extracting the text\<close>

text \<open>
  The OCR engine is outside the service as well: what each call on the worker does is an
  input of the model, and the calls that are made are logged in order, each with whether
  it returned. \<open>terminate_res\<close> is what the first call of \<open>terminate\<close> does and
  \<open>terminate_again_res\<close> what a second call does.
\<close>

record ocr_world =
  createWorker_res :: "js_error option"
  setParameters_res :: "js_error option"
  recognize_res :: "js_error + jsstring"
  terminate_res :: "js_error option"
  terminate_again_res :: "js_error option"

datatype ocr_call = CreateWorker bool | SetParameters bool | Recognize bool | Terminate bool

record ocr_try_exit =
  outcome :: "js_error + ocr_result"
  worker :: bool
  calls :: "ocr_call list"

definition empty_ocr_result :: ocr_result where
  "empty_ocr_result =
     \<lparr>rawText = [],
      extractedData = \<lparr>priceLevels = [], indicators = [], labels = [], hasData = False\<rparr>\<rparr>"

definition extractChartDataWithOCR_try :: "ocr_world \<Rightarrow> ocr_try_exit" where
  \<comment> \<open>the \<open>try\<close> block: how it ends, whether the variable \<open>worker\<close> holds a worker then,
      and the calls made\<close>
  "extractChartDataWithOCR_try w =
     (case createWorker_res w of
        Some e \<Rightarrow> \<lparr>outcome = Inl e, worker = False, calls = [CreateWorker False]\<rparr>
      | None \<Rightarrow>
          (case setParameters_res w of
             Some e \<Rightarrow> \<lparr>outcome = Inl e, worker = True,
                        calls = [CreateWorker True, SetParameters False]\<rparr>
           | None \<Rightarrow>
               (case recognize_res w of
                  Inl e \<Rightarrow> \<lparr>outcome = Inl e, worker = True,
                            calls = [CreateWorker True, SetParameters True, Recognize False]\<rparr>
                | Inr text \<Rightarrow>
                    (case terminate_res w of
                       Some e \<Rightarrow> \<lparr>outcome = Inl e, worker = True,
                                  calls = [CreateWorker True, SetParameters True, Recognize True,
                                           Terminate False]\<rparr>
                     | None \<Rightarrow> \<lparr>outcome = Inr (parseOCRText text), worker = False,
                                calls = [CreateWorker True, SetParameters True, Recognize True,
                                         Terminate True]\<rparr>))))"

definition extractChartDataWithOCR :: "ocr_world \<Rightarrow> ocr_result \<times> ocr_call list" where
  \<comment> \<open>the result and the calls made on the engine before it is returned\<close>
  "extractChartDataWithOCR w =
     (let t = extractChartDataWithOCR_try w
      in case outcome t of
           Inr data \<Rightarrow> (data, calls t)
         | Inl error \<Rightarrow>
             (empty_ocr_result,
              if worker t then
                calls t @ [Terminate ((if Terminate False \<in> set (calls t) then terminate_again_res w
                                       else terminate_res w) = None)]
              else calls t))"

definition terminate_calls :: "ocr_call list \<Rightarrow> ocr_call list" where
  "terminate_calls cs = filter (\<lambda>c. c = Terminate True \<or> c = Terminate False) cs"

text \<open>
  The words of the specification: some call on the OCR engine fails; and the one path on
  which \<open>terminate\<close> raises with the worker still held by the \<open>try\<close> block.
\<close>

definition ocr_fails :: "ocr_world \<Rightarrow> bool" where
  "ocr_fails w =
     (createWorker_res w \<noteq> None \<or> setParameters_res w \<noteq> None \<or> isl (recognize_res w) \<or>
      terminate_res w \<noteq> None)"

definition terminate_raises_after_recognition :: "ocr_world \<Rightarrow> bool" where
  "terminate_raises_after_recognition w =
     (createWorker_res w = None \<and> setParameters_res w = None \<and> \<not> isl (recognize_res w) \<and>
      terminate_res w \<noteq> None)"

subsection \<open>Calling the remote service\<close>

text \<open>
  What the request to the remote service does is an input of the model: it raises, or
  returns the body of the response. The prompt, which \<open>generateTradingPrompt\<close> renders
  from the extracted data and the parameters of the request, reaches nothing but that
  request, and rendering it raises nothing on strings.
\<close>

definition analyzeWithAI :: "(js_error + jsval) \<Rightarrow> jsstring \<Rightarrow> nat \<Rightarrow> js_error + jsval" where
  "analyzeWithAI post_res now requestId =
     (case post_res of
        Inr data \<Rightarrow> Inr (parseAIResponse now data requestId)
      | Inl error \<Rightarrow> Inl (Error (str ''AI service error: '' @ message error)))"

subsection \<open>The orchestrator\<close>

record request =
  imageBuffer :: "bytes option"
  symbol :: jsstring
  timeframe :: jsstring
  tradeType :: jsstring
  extraNotes :: jsstring

text \<open>
  The world of one call: the two readings of \<open>Date.now()\<close>, the reading of the clock
  that stamps a fallback result and the one that stamps the metadata, and what the
  libraries and the remote service do.
\<close>

record world =
  start_ms :: int
  end_ms :: int
  fallback_iso :: jsstring
  metadata_iso :: jsstring
  sharp :: sharp_world
  ocr :: ocr_world
  post_res :: "js_error + jsval"

definition int_to_string :: "int \<Rightarrow> jsstring" where
  "int_to_string i = (if i < 0 then 45 # digits_of (nat (- i)) else digits_of (nat i))"

definition analyzeTradingChart_try :: "world \<Rightarrow> request \<Rightarrow> nat \<Rightarrow> js_error + jsval" where
  \<comment> \<open>the \<open>try\<close> block of \<open>analyzeTradingChart\<close>\<close>
  "analyzeTradingChart_try w req requestId =
     (case imageBuffer req of
        None \<Rightarrow> Inl (Error (str ''Empty image buffer''))
      | Some buf \<Rightarrow>
          if length buf = 0 then Inl (Error (str ''Empty image buffer''))
          else if symbol req \<notin> set TRADING_PAIRS then Inl (Error (str ''Invalid symbol: '' @ symbol req))
          else
            (let processedImage = preprocessImage (sharp w) buf;
                 ocrData = fst (extractChartDataWithOCR (ocr w))
             in and_then (analyzeWithAI (post_res w) (fallback_iso w) requestId) (\<lambda>analysisResult.
                  let processingTime = end_ms w - start_ms w
                  in Inr (JObj (set_prop (str ''metadata'')
                       (jobj [(''requestId'', JNum (of_nat requestId)),
                              (''processingTime'', JStr (int_to_string processingTime @ str ''ms'')),
                              (''apiProvider'', jstr ''DeepSeek''),
                              (''symbol'', JStr (symbol req)),
                              (''timeframe'', JStr (timeframe req)),
                              (''tradeType'', JStr (tradeType req)),
                              (''timestamp'', JStr (metadata_iso w)),
                              (''version'', jstr ''1.0.0'')])
                       (spread analysisResult))))))"

definition analyzeTradingChart :: "world \<Rightarrow> nat \<Rightarrow> request \<Rightarrow> jsval \<times> nat" where
  \<comment> \<open>the result and the new value of \<open>requestCount\<close>\<close>
  "analyzeTradingChart w requestCount req =
     (let requestId = requestCount + 1
      in (case analyzeTradingChart_try w req requestId of
            Inr result \<Rightarrow> result
          | Inl error \<Rightarrow>
              getFallbackAnalysis (fallback_iso w) (symbol req) (timeframe req) (tradeType req)
                error requestId,
          requestId))"

text \<open>
  The words of the specification on the orchestrator: the request is one that the
  validation at the head of the \<open>try\<close> block rejects, with the message it raises; the
  remote call raises; the validator's \<open>try\<close> block raises on the reply.
\<close>

definition input_rejected :: "request \<Rightarrow> bool" where
  "input_rejected req =
     (imageBuffer req = None \<or> imageBuffer req = Some [] \<or> symbol req \<notin> set TRADING_PAIRS)"

definition validation_message :: "request \<Rightarrow> jsstring" where
  "validation_message req =
     (if imageBuffer req = None \<or> imageBuffer req = Some [] then str ''Empty image buffer''
      else str ''Invalid symbol: '' @ symbol req)"

definition invocation_fails :: "world \<Rightarrow> js_error \<Rightarrow> bool" where
  "invocation_fails w e = (post_res w = Inl e)"

definition validation_fails :: "world \<Rightarrow> js_error \<Rightarrow> bool" where
  "validation_fails w e =
     (case post_res w of Inl _ \<Rightarrow> False | Inr data \<Rightarrow> parseAIResponse_try data = Inl e)"

definition pipeline_raises :: "world \<Rightarrow> request \<Rightarrow> bool" where
  \<comment> \<open>the \<open>try\<close> block of the orchestrator ends in its handler\<close>
  "pipeline_raises w req = (input_rejected req \<or> isl (post_res w))"

text \<open>Whether some object inside a value has a property of the given name.\<close>

fun mentions :: "jsstring \<Rightarrow> jsval \<Rightarrow> bool" where
  "mentions k (JObj ps) = list_ex (\<lambda>p. fst p = k \<or> mentions k (snd p)) ps"
| "mentions k (JArr vs) = list_ex (mentions k) vs"
| "mentions k v = False"

section \<open>Sample inputs\<close>

text \<open>
  A request and a world in which every library call succeeds, to build examples from;
  a world in which the remote service times out and one in which its reply is no JSON;
  replies of the remote service.
\<close>

definition sample_request :: request where
  "sample_request =
     \<lparr>imageBuffer = Some [137, 80, 78, 71], symbol = str ''XAUUSD'', timeframe = str ''H1'',
      tradeType = str ''intraday'', extraNotes = []\<rparr>"

definition quiet_sharp :: sharp_world where
  "quiet_sharp =
     \<lparr>sharp_res = None, metadata_res = Inr \<lparr>width = 800, height = 600\<rparr>, resize_res = None,
      grayscale_res = None, normalise_res = None, sharpen_res = None, median_res = None,
      toBuffer_res = Inr [137, 80, 78, 71, 13]\<rparr>"

definition quiet_ocr :: ocr_world where
  "quiet_ocr =
     \<lparr>createWorker_res = None, setParameters_res = None, recognize_res = Inr (str ''RSI: 72.5''),
      terminate_res = None, terminate_again_res = None\<rparr>"

definition timeout_world :: world where
  "timeout_world =
     \<lparr>start_ms = 1000, end_ms = 46000, fallback_iso = str ''2024-01-01T00:00:46.000Z'',
      metadata_iso = str ''2024-01-01T00:00:46.001Z'', sharp = quiet_sharp, ocr = quiet_ocr,
      post_res = Inl (Error (str ''timeout of 45000ms exceeded''))\<rparr>"

definition malformed_reply_world :: world where
  \<comment> \<open>the remote service answers, with a reply that is no JSON\<close>
  "malformed_reply_world =
     timeout_world\<lparr>post_res := Inr (jobj [(''choices'', JArr [jobj [(''message'',
        jobj [(''content'', jstr ''I cannot analyse this chart.'')])]])])\<rparr>"

text \<open>A response of the remote service whose first choice carries the given content.\<close>

definition reply_with :: "jsstring \<Rightarrow> jsval" where
  "reply_with content =
     jobj [(''choices'', JArr [jobj [(''message'', jobj [(''content'', JStr content)])]])]"

definition fenced_reply :: jsstring where
  \<comment> \<open>a JSON document between a \<open>json\<close> code fence and a closing fence, on lines of their own\<close>
  "fenced_reply =
     str ''```json'' @ [10] @
     str ''{\"decision\":{\"action\":\"BUY\"},\"vision_summary\":{\"trend_structure\":\"bullish\"}}'' @
     [10] @ str ''```''"

definition falsy_decision_reply :: jsstring where
  "falsy_decision_reply = str ''{\"decision\":false,\"vision_summary\":{}}''"

section \<open>Rules for evaluating the model on concrete inputs\<close>

lemma repeat_numeral:
  "repeat m (numeral k) mn mx st =
     (if mx = Some 0 then [st]
      else concat (map (\<lambda>st'. if mn = 0 \<and> pos st' = pos st then []
                               else repeat m (pred_numeral k) (mn - 1) (map_option (\<lambda>j. j - 1) mx) st') (m st))
           @ (if mn = 0 then [st] else []))"
  by (simp add: numeral_eq_Suc)

lemma floor_rat_numeral: "\<lfloor>numeral a / numeral b :: rat\<rfloor> = numeral a div numeral b"
  using floor_divide_of_int_eq [of "numeral a" "numeral b", where ?'a = rat] by simp

declare digits_of.simps [simp del]

lemma digits_of_small: "n < 10 \<Longrightarrow> digits_of n = [48 + n]"
  by (simp add: digits_of.simps)

lemma digits_of_large: "\<not> n < 10 \<Longrightarrow> digits_of n = digits_of (n div 10) @ [48 + n mod 10]"
  by (subst digits_of.simps) simp

lemmas rx_defs = seqs_def rx_rep_def rx_star_def rx_plus_def rx_opt_def digit_def sep_def space_def
  label_gap_def lit_def lit_i_def chr_def chr_i_def ws_ranges_def number_pattern_def str_def

lemmas parse_defs = parseOCRText_def allPrices_def match_all_def pricePatterns_def mk_match_def
  rsiPatterns_def macdPattern_def maPattern_def macd_step_def match_first_def capture_value_def
  match_group_def price_of_match_def replace_all_def cleanPattern_def parseFloat_def toFixed_def
  is_ws_def is_digit_def digits_val_def new_Set_def Set_add_def substring0_def toUpperCase_def
  Let_def digits_of_small digits_of_large floor_rat_numeral repeat_numeral

lemmas reply_defs = clean_reply_def fence_json_pattern_def fence_pattern_def json_tag_pattern_def
  replace_all_def replace_first_def trim_def mk_match_def is_ws_def JSON_parse_def is_json_ws_def
  is_digit_def lex_number_def digits_val_def Let_def repeat_numeral rx_defs

section \<open>Properties of the text parser\<close>

subsection \<open>Numerals\<close>

text \<open>
  The numeral that \<open>toFixed\<close> prints for a number that is not negative always reads
  back, as the rounded number; so rounding a price never yields \<open>NaN\<close>, and a price
  that is kept is its number rounded to five, four or two decimal places.
\<close>

lemma digits_val_snoc: "digits_val (ds @ [c]) = 10 * digits_val ds + (c - 48)"
  by (simp add: digits_val_def)

lemma digits_of_all_digits: "\<forall>c \<in> set (digits_of n). is_digit c"
proof (induction n rule: digits_of.induct)
  case (1 n)
  show ?case
  proof (cases "n < 10")
    case True
    then show ?thesis by (simp add: digits_of_small is_digit_def)
  next
    case False
    have "n mod 10 < 10" by simp
    then have "is_digit (48 + n mod 10)" unfolding is_digit_def by linarith
    with False 1 show ?thesis by (simp add: digits_of_large)
  qed
qed

lemma digits_of_not_Nil: "digits_of n \<noteq> []"
  by (cases "n < 10") (simp_all add: digits_of_small digits_of_large)

lemma digits_val_digits_of: "digits_val (digits_of n) = n"
proof (induction n rule: digits_of.induct)
  case (1 n)
  show ?case
  proof (cases "n < 10")
    case True
    then show ?thesis by (simp add: digits_of_small digits_val_def)
  next
    case False
    with 1 show ?thesis by (simp add: digits_of_large digits_val_snoc)
  qed
qed

lemma length_digits_of: "0 < p \<Longrightarrow> n < 10 ^ p \<Longrightarrow> length (digits_of n) \<le> p"
proof (induction n arbitrary: p rule: digits_of.induct)
  case (1 n)
  show ?case
  proof (cases "n < 10")
    case True
    with 1 show ?thesis by (simp add: digits_of_small)
  next
    case False
    from False 1(3) have p: "1 < p" by (cases "p = 1") (use 1(2) in auto)
    then obtain q where q: "p = Suc q" "0 < q" by (cases p) auto
    from 1(3) q have "n div 10 < 10 ^ q" by (simp add: less_mult_imp_div_less mult.commute)
    from 1(1) [OF False q(2) this] False q show ?thesis by (simp add: digits_of_large)
  qed
qed

lemma digits_val_zeros: "digits_val (replicate k 48 @ ds) = digits_val ds"
  by (induction k) (simp_all add: digits_val_def)

lemma takeWhile_digits:
  "\<forall>c \<in> set ds. is_digit c \<Longrightarrow> \<not> is_digit x \<Longrightarrow> takeWhile is_digit (ds @ x # r) = ds"
  by (simp add: takeWhile_append2)

lemma dropWhile_digits:
  "\<forall>c \<in> set ds. is_digit c \<Longrightarrow> \<not> is_digit x \<Longrightarrow> dropWhile is_digit (ds @ x # r) = x # r"
  by (simp add: dropWhile_append2)

lemma not_ws_digit: "is_digit c \<Longrightarrow> \<not> is_ws c"
  by (auto simp: is_digit_def is_ws_def ws_ranges_def)

lemma parseFloat_digit_head:
  assumes "is_digit c"
  shows "parseFloat (c # r) =
           Some (of_nat (digits_val (takeWhile is_digit (c # r))) +
                 (case dropWhile is_digit (c # r) of
                    [] \<Rightarrow> 0
                  | d # ds \<Rightarrow>
                      if d = 46
                      then of_nat (digits_val (takeWhile is_digit ds)) / 10 ^ length (takeWhile is_digit ds)
                      else 0))"
proof -
  have nw: "\<not> is_ws c" using assms by (rule not_ws_digit)
  have ns: "c \<noteq> 45" "c \<noteq> 43" using assms by (auto simp: is_digit_def)
  have z: "digits_val [] = 0" by (simp add: digits_val_def)
  have t: "dropWhile is_ws (c # r) = c # r" using nw by simp
  have ne: "takeWhile is_digit (c # r) \<noteq> []" using assms by simp
  have u: "(case c # r of [] \<Rightarrow> [] | c' # cs \<Rightarrow> if c' = 45 \<or> c' = 43 then cs else c # r) = c # r"
    using ns by simp
  have n: "(case c # r of [] \<Rightarrow> False | c' # cs \<Rightarrow> c' = 45) = False"
    using ns by simp
  define v where "v = dropWhile is_digit (c # r)"
  show ?thesis
    unfolding parseFloat_def Let_def t u n v_def [symmetric]
    using ne
    by (cases v) (simp_all add: z del: takeWhile.simps dropWhile.simps)
qed

lemma parseFloat_fraction:
  assumes ip: "ip \<noteq> []" "\<forall>c \<in> set ip. is_digit c" and fp: "\<forall>c \<in> set fp. is_digit c"
  shows "parseFloat (ip @ [46] @ fp) =
           Some (of_nat (digits_val ip) + of_nat (digits_val fp) / 10 ^ length fp)"
proof -
  from ip obtain c cs where c: "ip = c # cs" "is_digit c" by (cases ip) auto
  have d46: "\<not> is_digit 46" by (simp add: is_digit_def)
  have t1: "takeWhile is_digit (c # cs @ [46] @ fp) = ip"
    using takeWhile_digits [OF ip(2) d46, of fp] by (simp add: c(1))
  have t2: "dropWhile is_digit (c # cs @ [46] @ fp) = 46 # fp"
    using dropWhile_digits [OF ip(2) d46, of fp] by (simp add: c(1))
  have t3: "takeWhile is_digit fp = fp" using fp by (simp add: takeWhile_eq_all_conv)
  have "parseFloat (c # cs @ [46] @ fp) =
          Some (of_nat (digits_val ip) + of_nat (digits_val fp) / 10 ^ length fp)"
    unfolding parseFloat_digit_head [OF c(2)] t1 t2 by (simp add: t3)
  then show ?thesis by (simp add: c(1))
qed

lemma parseFloat_integer:
  assumes ip: "ip \<noteq> []" "\<forall>c \<in> set ip. is_digit c"
  shows "parseFloat ip = Some (of_nat (digits_val ip))"
proof -
  from ip obtain c cs where c: "ip = c # cs" "is_digit c" by (cases ip) auto
  have t4: "takeWhile is_digit (c # cs) = ip" "dropWhile is_digit (c # cs) = []"
    using ip(2) by (simp_all add: c(1))
  have "parseFloat (c # cs) = Some (of_nat (digits_val ip))"
    unfolding parseFloat_digit_head [OF c(2)] t4 by simp
  then show ?thesis by (simp add: c(1))
qed

lemma parseFloat_toFixed:
  assumes "0 \<le> x"
  shows "parseFloat (toFixed x p) = Some (of_nat (nat \<lfloor>x * 10 ^ p + 1 / 2\<rfloor>) / 10 ^ p)"
proof -
  define n where "n = nat \<lfloor>x * 10 ^ p + 1 / 2\<rfloor>"
  let ?ip = "digits_of (n div 10 ^ p)"
  let ?fp = "replicate (p - length (digits_of (n mod 10 ^ p))) 48 @ digits_of (n mod 10 ^ p)"
  have tf: "toFixed x p = (if p = 0 then ?ip else ?ip @ [46] @ ?fp)"
    using assms by (simp add: toFixed_def Let_def n_def)
  have ipd: "?ip \<noteq> []" "\<forall>c \<in> set ?ip. is_digit c"
    by (simp_all add: digits_of_not_Nil digits_of_all_digits)
  show ?thesis
  proof (cases "p = 0")
    case True
    with tf parseFloat_integer [OF ipd] show ?thesis
      by (simp add: digits_val_digits_of n_def)
  next
    case False
    have fpd: "\<forall>c \<in> set ?fp. is_digit c"
      using digits_of_all_digits [of "n mod 10 ^ p"] by (auto simp: is_digit_def)
    have "length (digits_of (n mod 10 ^ p)) \<le> p"
      using False by (intro length_digits_of) simp_all
    then have len: "length ?fp = p" by simp
    have val: "digits_val ?fp = n mod 10 ^ p"
      by (simp add: digits_val_zeros digits_val_digits_of)
    have "(of_nat (n div 10 ^ p) :: rat) + of_nat (n mod 10 ^ p) / 10 ^ p = of_nat n / 10 ^ p"
    proof -
      define q where "q = (10::nat) ^ p"
      have qr: "(of_nat q :: rat) = 10 ^ p" by (simp add: q_def)
      have "n div q * q + n mod q = n" by simp
      then have "(of_nat (n div q * q + n mod q) :: rat) = of_nat n" by (simp only:)
      then have "(of_nat (n div q) :: rat) * of_nat q + of_nat (n mod q) = of_nat n"
        by (simp only: of_nat_add of_nat_mult)
      then have "(of_nat (n div q) :: rat) * 10 ^ p + of_nat (n mod q) = of_nat n"
        by (simp only: qr)
      then show ?thesis unfolding q_def by (simp add: field_simps)
    qed
    with False tf parseFloat_fraction [OF ipd fpd] len val show ?thesis
      by (simp add: digits_val_digits_of n_def)
  qed
qed

lemma price_of_match_rounding:
  assumes "parseFloat (replace_char 44 46 (replace_all cleanPattern [] m)) = Some num" and "0 < num"
  shows "price_of_match m =
           [of_nat (nat \<lfloor>num * 10 ^ (if num < 10 then 5 else if num < 1000 then 4 else 2) + 1 / 2\<rfloor>)
              / 10 ^ (if num < 10 then 5 else if num < 1000 then 4 else 2)]"
  using assms by (simp add: price_of_match_def Let_def parseFloat_toFixed)

subsection \<open>Prices and the data flag\<close>

lemma distinct_new_Set_acc: "distinct acc \<Longrightarrow> distinct (foldl Set_add acc xs)"
  by (induction xs arbitrary: acc) (auto simp: Set_add_def)

lemma distinct_new_Set: "distinct (new_Set xs)"
  by (simp add: new_Set_def distinct_new_Set_acc)

text \<open>
  Claim C2. For every raw text, the price levels that \<open>parseOCRText\<close> returns are sorted
  in ascending order, hold no value twice, and are at most 15.
\<close>

theorem parseOCRText_priceLevels_sorted_distinct_capped:
  "sorted (priceLevels (extractedData (parseOCRText text))) \<and>
   distinct (priceLevels (extractedData (parseOCRText text))) \<and>
   length (priceLevels (extractedData (parseOCRText text))) \<le> 15"
  by (simp add: parseOCRText_def Let_def distinct_new_Set sorted_wrt_take distinct_take)

text \<open>
  Claim C3. For every raw text, \<open>hasData\<close> of the result of \<open>parseOCRText\<close> is true
  exactly when the price levels are not empty or the indicators are not empty. Matching a
  pattern against a string and converting a numeral raise nothing, so the body of the
  \<open>try\<close> block always reaches the assignment of \<open>hasData\<close> and there is no
  partial result that skips it.
\<close>

theorem parseOCRText_hasData_iff:
  "hasData (extractedData (parseOCRText text)) =
     (0 < length (priceLevels (extractedData (parseOCRText text))) \<or>
      0 < length (indicators (extractedData (parseOCRText text))))"
  unfolding parseOCRText_def Let_def by (simp del: length_greater_0_conv)

lemma parseOCRText_scenario_value:
  "parseOCRText (str ''Price: 1,234.56 RSI: 72.5 EMA: 1.20500'') =
     \<lparr>rawText = str ''Price: 1,234.56 RSI: 72.5 EMA: 1.20500'',
      extractedData = \<lparr>priceLevels = [1.2, 1.205, 1234, 1234.56],
                        indicators = [(str ''RSI'', 72.5), (str ''EMA'', 1.205)],
                        labels = [], hasData = True\<rparr>\<rparr>"
  by (simp add: parse_defs rx_defs)

text \<open>
  Claim C5. On the text \<open>Price: 1,234.56 RSI: 72.5 EMA: 1.20500\<close> the price levels
  of the result contain 1234.56 (two decimal places, being at least 1000) and 1.205 (five
  decimal places, being below 10), the indicators are RSI 72.5 and EMA 1.205 and nothing
  else, and \<open>hasData\<close> is true.
\<close>

theorem parseOCRText_scenario:
  "1234.56 \<in> set (priceLevels (extractedData (parseOCRText (str ''Price: 1,234.56 RSI: 72.5 EMA: 1.20500'')))) \<and>
   1.205 \<in> set (priceLevels (extractedData (parseOCRText (str ''Price: 1,234.56 RSI: 72.5 EMA: 1.20500'')))) \<and>
   indicators (extractedData (parseOCRText (str ''Price: 1,234.56 RSI: 72.5 EMA: 1.20500''))) =
     [(str ''RSI'', 72.5), (str ''EMA'', 1.205)] \<and>
   hasData (extractedData (parseOCRText (str ''Price: 1,234.56 RSI: 72.5 EMA: 1.20500'')))"
  by (simp add: parseOCRText_scenario_value)


subsection \<open>The end states of a match\<close>

lemma reach_refl: "reach G st st"
  by (simp add: reach_def)

lemma reach_trans: "reach G a b \<Longrightarrow> reach H b c \<Longrightarrow> reach (G \<union> H) a c"
  unfolding reach_def
  apply (elim conjE exE)
  apply (intro conjI)
     apply simp
    apply simp
   apply (simp add: add.commute)
  apply (rule_tac x="ea @ e" in exI)
  apply auto
  done

lemma reach_mono: "reach G a b \<Longrightarrow> G \<subseteq> H \<Longrightarrow> reach H a b"
  unfolding reach_def by blast

lemma repeat_reach:
  assumes step: "\<And>st m. m \<in> set (f st) \<Longrightarrow> reach G st m"
  shows "m \<in> set (repeat f k mn mx st) \<Longrightarrow> reach G st m"
proof (induction k arbitrary: mn mx st)
  case 0
  then show ?case by (auto simp: reach_refl split: if_splits)
next
  case (Suc k)
  from Suc.prems consider "m = st"
    | st' where "st' \<in> set (f st)" "m \<in> set (repeat f k (mn - 1) (map_option (\<lambda>j. j - 1) mx) st')"
    by (auto split: if_splits)
  then show ?case
  proof cases
    case 1
    then show ?thesis by (simp add: reach_refl)
  next
    case 2
    from step [OF 2(1)] Suc.IH [OF 2(2)] have "reach (G \<union> G) st m" by (rule reach_trans)
    then show ?thesis by simp
  qed
qed

lemma matches_reach: "m \<in> set (matches r st) \<Longrightarrow> reach (group_ids r) st m"
proof (induction r arbitrary: st m)
  case (Cls rs)
  then show ?case by (cases "rest st") (auto simp: reach_def split: if_splits)
next
  case Bol
  then show ?case by (auto simp: reach_refl split: if_splits)
next
  case Eps
  then show ?case by (simp add: reach_refl)
next
  case (Seq a b)
  then obtain st' where "st' \<in> set (matches a st)" "m \<in> set (matches b st')" by auto
  then show ?case using Seq.IH reach_trans by fastforce
next
  case (Alt a b)
  then show ?case by (auto intro: reach_mono [of "group_ids a"] reach_mono [of "group_ids b"])
next
  case (Rep mn mx a)
  then show ?case using repeat_reach [of "matches a" "group_ids a"] by simp
next
  case (Grp i a)
  then obtain st' where st': "st' \<in> set (matches a st)"
    and m: "m = st'\<lparr>caps := (i, take (pos st' - pos st) (rest st)) # caps st'\<rparr>" by auto
  from Grp.IH [OF st'] show ?case
    unfolding m reach_def
    apply (elim conjE exE)
    apply simp
    apply blast
    done
qed

text \<open>
  The bound on the iterations of a quantifier is never what ends them: with any larger
  bound the quantifier has the same matches.
\<close>

lemma repeat_fuel_step:
  assumes step: "\<And>st m. m \<in> set (f st) \<Longrightarrow>
      pos st \<le> pos m \<and> length (rest m) + (pos m - pos st) = length (rest st)"
  shows "mn + length (rest st) \<le> k \<Longrightarrow> repeat f (Suc k) mn mx st = repeat f k mn mx st"
proof (induction k arbitrary: mn mx st)
  case 0
  then have mn: "mn = 0" and r: "length (rest st) = 0" by simp_all
  have same: "pos st' = pos st" if "st' \<in> set (f st)" for st'
    using step [OF that] r by simp
  have eq: "concat (map (\<lambda>st'. if (0::nat) = 0 \<and> pos st' = pos st then []
               else repeat f 0 (0 - 1) (map_option (\<lambda>j. j - 1) mx) st') (f st)) = []"
    by (auto simp: same)
  have "repeat f (Suc 0) 0 mx st =
          (if mx = Some 0 then [st]
           else concat (map (\<lambda>st'. if (0::nat) = 0 \<and> pos st' = pos st then []
                  else repeat f 0 (0 - 1) (map_option (\<lambda>j. j - 1) mx) st') (f st))
                @ (if (0::nat) = 0 then [st] else []))"
    by (rule repeat.simps)
  also have "\<dots> = [st]" unfolding eq by simp
  also have "\<dots> = repeat f 0 0 mx st" by simp
  finally show ?case unfolding mn .
next
  case (Suc k)
  let ?mx = "map_option (\<lambda>j. j - 1) mx"
  have inner: "(if mn = 0 \<and> pos st' = pos st then [] else repeat f (Suc k) (mn - 1) ?mx st') =
               (if mn = 0 \<and> pos st' = pos st then [] else repeat f k (mn - 1) ?mx st')"
    if m: "st' \<in> set (f st)" for st'
  proof (cases "mn = 0 \<and> pos st' = pos st")
    case True
    then show ?thesis by (simp del: repeat.simps)
  next
    case False
    from step [OF m] Suc.prems False have "(mn - 1) + length (rest st') \<le> k" by auto
    then have "repeat f (Suc k) (mn - 1) ?mx st' = repeat f k (mn - 1) ?mx st'" by (rule Suc.IH)
    then show ?thesis by (simp only:)
  qed
  have meq: "map (\<lambda>st'. if mn = 0 \<and> pos st' = pos st then [] else repeat f (Suc k) (mn - 1) ?mx st') (f st) =
             map (\<lambda>st'. if mn = 0 \<and> pos st' = pos st then [] else repeat f k (mn - 1) ?mx st') (f st)"
    by (rule map_cong [OF refl]) (rule inner)
  have L: "repeat f (Suc (Suc k)) mn mx st =
             (if mx = Some 0 then [st]
              else concat (map (\<lambda>st'. if mn = 0 \<and> pos st' = pos st then []
                     else repeat f (Suc k) (mn - 1) ?mx st') (f st))
                   @ (if mn = 0 then [st] else []))"
    by (rule repeat.simps)
  have R: "repeat f (Suc k) mn mx st =
             (if mx = Some 0 then [st]
              else concat (map (\<lambda>st'. if mn = 0 \<and> pos st' = pos st then []
                     else repeat f k (mn - 1) ?mx st') (f st))
                   @ (if mn = 0 then [st] else []))"
    by (rule repeat.simps)
  show ?case by (simp only: L R meq)
qed

lemma matches_progress:
  "m \<in> set (matches r st) \<Longrightarrow>
     pos st \<le> pos m \<and> length (rest m) + (pos m - pos st) = length (rest st)"
  using matches_reach [of m r st] by (auto simp: reach_def)

lemma repeat_fuel_enough:
  "repeat (matches a) (mn + length (rest st) + d) mn mx st = matches (Rep mn mx a) st"
proof (induction d)
  case 0
  then show ?case by simp
next
  case (Suc d)
  have "repeat (matches a) (Suc (mn + length (rest st) + d)) mn mx st =
        repeat (matches a) (mn + length (rest st) + d) mn mx st"
    by (rule repeat_fuel_step) (auto dest: matches_progress)
  with Suc show ?case by simp
qed

lemma scan_from_matches:
  "rm \<in> set (scan r skip n s) \<Longrightarrow>
     \<exists>st m ms. caps st = [] \<and> matches r st = m # ms \<and> rm = mk_match (pos st) (rest st) m"
proof (induction s arbitrary: skip n)
  case Nil
  show ?case
  proof (cases "matches r \<lparr>pos = n, rest = [], caps = []\<rparr>")
    case Nil
    with \<open>rm \<in> set (scan r skip n [])\<close> show ?thesis by (simp split: if_splits)
  next
    case (Cons m ms)
    with \<open>rm \<in> set (scan r skip n [])\<close> have "rm = mk_match n [] m" by (simp split: if_splits)
    with Cons show ?thesis
      by (intro exI [of _ "\<lparr>pos = n, rest = [], caps = []\<rparr>"] exI [of _ m] exI [of _ ms]) simp
  qed
next
  case (Cons c cs)
  show ?case
  proof (cases "0 < skip")
    case True
    with Cons show ?thesis by auto
  next
    case False
    show ?thesis
    proof (cases "matches r \<lparr>pos = n, rest = c # cs, caps = []\<rparr>")
      case Nil
      with False Cons show ?thesis by auto
    next
      case (Cons m ms)
      with False Cons.prems have "rm = mk_match n (c # cs) m \<or> rm \<in> set (scan r (pos m - n - 1) (Suc n) cs)"
        by auto
      then show ?thesis
      proof
        assume "rm = mk_match n (c # cs) m"
        with Cons show ?thesis
          by (intro exI [of _ "\<lparr>pos = n, rest = c # cs, caps = []\<rparr>"] exI [of _ m] exI [of _ ms]) simp
      next
        assume "rm \<in> set (scan r (pos m - n - 1) (Suc n) cs)"
        then show ?thesis by (rule Cons.IH)
      qed
    qed
  qed
qed

lemma toUpperCase_chr_i:
  "st' \<in> set (matches (chr_i c) st) \<Longrightarrow>
     \<exists>c' cs. rest st = c' # cs \<and> st' = st\<lparr>pos := Suc (pos st), rest := cs\<rparr> \<and>
       toUpperCase [c'] = toUpperCase [c]"
  by (cases "rest st") (auto simp: chr_i_def toUpperCase_def split: if_splits)

lemma matches_lit_i:
  "st' \<in> set (matches (lit_i w) st) \<Longrightarrow>
     caps st' = caps st \<and> pos st' = pos st + length w \<and> length w \<le> length (rest st) \<and>
     toUpperCase (take (length w) (rest st)) = toUpperCase w"
proof (induction w arbitrary: st)
  case Nil
  then show ?case by (simp add: lit_i_def seqs_def toUpperCase_def)
next
  case (Cons c w)
  from Cons.prems obtain st1 where st1: "st1 \<in> set (matches (chr_i c) st)"
    and st': "st' \<in> set (matches (lit_i w) st1)"
    by (auto simp: lit_i_def seqs_def)
  from toUpperCase_chr_i [OF st1] obtain c' cs where
    r: "rest st = c' # cs" and s1: "st1 = st\<lparr>pos := Suc (pos st), rest := cs\<rparr>"
    and u: "toUpperCase [c'] = toUpperCase [c]" by blast
  from Cons.IH [OF st'] s1 r u show ?case by (simp add: toUpperCase_def)
qed

lemma maPattern_match:
  assumes m: "m \<in> set (matches maPattern st)" and c: "caps st = []"
  shows "\<exists>tag. map_of (caps m) 1 = Some tag \<and>
           toUpperCase tag \<in> {str ''MA'', str ''SMA'', str ''EMA''} \<and> pos st < pos m"
proof -
  let ?A = "Alt (lit_i (str ''MA'')) (Alt (lit_i (str ''SMA'')) (lit_i (str ''EMA'')))"
  let ?B = "seqs [label_gap, Grp 2 (number_pattern 6 5)]"
  from m obtain st0 st1 where st0: "st0 \<in> set (matches ?A st)"
    and st1: "st1 = st0\<lparr>caps := (1, take (pos st0 - pos st) (rest st)) # caps st0\<rparr>"
    and mB: "m \<in> set (matches ?B st1)"
    by (auto simp: maPattern_def seqs_def)
  from st0 obtain w where w: "w \<in> {str ''MA'', str ''SMA'', str ''EMA''}"
    and l: "st0 \<in> set (matches (lit_i w) st)" by auto
  from matches_lit_i [OF l] have
    p0: "pos st0 = pos st + length w" and c0: "caps st0 = caps st"
    and u: "toUpperCase (take (length w) (rest st)) = toUpperCase w" by simp_all
  from w have wu: "toUpperCase w = w" and wl: "0 < length w" by (auto simp: str_def toUpperCase_def)
  have g: "group_ids ?B = {2}"
    by (simp add: seqs_def label_gap_def rx_star_def number_pattern_def rx_rep_def rx_opt_def digit_def sep_def)
  from matches_reach [OF mB] g obtain e where le: "pos st1 \<le> pos m"
    and e: "caps m = e @ caps st1" "fst ` set e \<subseteq> {2}"
    unfolding reach_def by auto
  from e(2) have "map_of e (1::nat) = None" by (auto simp: map_of_eq_None_iff)
  with e(1) st1 p0 have "map_of (caps m) 1 = Some (take (length w) (rest st))"
    by (simp add: map_add_def)
  moreover from u wu w have "toUpperCase (take (length w) (rest st)) \<in> {str ''MA'', str ''SMA'', str ''EMA''}"
    by auto
  moreover from le st1 p0 wl have "pos st < pos m" by (cases w) simp_all
  ultimately show ?thesis by blast
qed

lemma map_of_set_prop: "map_of (set_prop k v ps) = (map_of ps)(k \<mapsto> v)"
  by (induction ps) (auto simp: fun_eq_iff)

lemma scan_maPattern_tag:
  assumes "rm \<in> set (scan maPattern skip n s)" and "match_group rm 1 = Some tag"
  shows "toUpperCase tag \<in> {str ''MA'', str ''SMA'', str ''EMA''}"
proof -
  from scan_from_matches [OF assms(1)] obtain st m ms where
    c: "caps st = []" and ms: "matches maPattern st = m # ms" and rm: "rm = mk_match (pos st) (rest st) m"
    by blast
  from ms have "m \<in> set (matches maPattern st)" by simp
  from maPattern_match [OF this c] assms(2) rm show ?thesis
    by (auto simp: match_group_def mk_match_def)
qed

lemma ma_loop_other_key:
  assumes "\<And>m tag. m \<in> set ms \<Longrightarrow> match_group m 1 = Some tag \<Longrightarrow> toUpperCase tag \<noteq> k"
  shows "map_of (ma_loop ms ind) k = map_of ind k"
  using assms
proof (induction ms arbitrary: ind)
  case Nil
  then show ?case by simp
next
  case (Cons m ms)
  have IH: "map_of (ma_loop ms ind') k = map_of ind' k" for ind'
    by (rule Cons.IH) (rule Cons.prems, simp_all)
  show ?case
  proof (cases "match_group m 1")
    case None
    then show ?thesis by (simp add: IH)
  next
    case (Some tag)
    from Cons.prems [of m tag] Some have "toUpperCase tag \<noteq> k" by simp
    with Some show ?thesis by (simp add: IH map_of_set_prop split: option.splits)
  qed
qed

lemma macd_step_RSI: "map_of (macd_step text ind) (str ''RSI'') = map_of ind (str ''RSI'')"
  by (simp add: macd_step_def map_of_set_prop str_def split: option.splits)

lemma rsi_loop_RSI:
  "map_of (rsi_loop ps text ind) (str ''RSI'') =
     (case find (\<lambda>v. 0 \<le> v \<and> v \<le> 100) (List.map_filter (\<lambda>p. rsi_candidate p text) ps) of
        None \<Rightarrow> map_of ind (str ''RSI'') | Some v \<Rightarrow> Some v)"
  by (induction ps) (auto simp: rsi_candidate_def map_of_set_prop split: option.splits)

lemma parseOCRText_RSI:
  "map_of (indicators (extractedData (parseOCRText text))) (str ''RSI'') = first_valid_rsi text"
proof -
  have "map_of (ma_loop (scan maPattern 0 0 text) ind) (str ''RSI'') = map_of ind (str ''RSI'')" for ind
  proof (rule ma_loop_other_key)
    fix m tag assume "m \<in> set (scan maPattern 0 0 text)" "match_group m 1 = Some tag"
    from scan_maPattern_tag [OF this] show "toUpperCase tag \<noteq> str ''RSI''"
      by (auto simp: str_def)
  qed
  then show ?thesis
    by (simp add: parseOCRText_def Let_def macd_step_RSI rsi_loop_RSI first_valid_rsi_def split: option.splits)
qed

lemma first_valid_rsi_ex: "first_valid_rsi (str ''RSI: 72.5'') = Some 72.5"
  by (simp add: first_valid_rsi_def rsi_candidate_def parse_defs rx_defs)

text \<open>
  Claim C4. For every raw text, the RSI that \<open>parseOCRText\<close> records is the first
  number in the range 0 to 100 among the numbers matched by the labelled RSI patterns, in
  the order of the patterns; so a recorded RSI lies between 0 and 100, and a matched
  number outside the range is not recorded. The later steps (MACD, moving averages) never
  write the RSI key.
\<close>

theorem parseOCRText_RSI_range_first_valid:
  "map_of (indicators (extractedData (parseOCRText text))) (str ''RSI'') = first_valid_rsi text \<and>
   (\<forall>v. map_of (indicators (extractedData (parseOCRText text))) (str ''RSI'') = Some v \<longrightarrow>
        0 \<le> v \<and> v \<le> 100)"
proof -
  have "0 \<le> v \<and> v \<le> 100" if "first_valid_rsi text = Some v" for v
    using that unfolding first_valid_rsi_def by (auto dest: find_Some_iff [THEN iffD1])
  then show ?thesis by (simp add: parseOCRText_RSI)
qed

theorem parseOCRText_RSI_range_first_valid_witness:
  "map_of (indicators (extractedData (parseOCRText (str ''RSI: 72.5'')))) (str ''RSI'') = Some 72.5 \<and>
   (0::rat) \<le> 72.5 \<and> (72.5::rat) \<le> 100"
  using parseOCRText_RSI_range_first_valid [of "str ''RSI: 72.5''"]
  by (simp add: first_valid_rsi_ex)

lemma rsi_out_of_range: "map_of (indicators (extractedData (parseOCRText (str ''RSI: 150 RSI: 50'')))) (str ''RSI'') = None"
  by (simp add: parse_defs rx_defs)

section \<open>Properties of the service\<close>

subsection \<open>Values and the fallback result\<close>

lemma str_eq_iff [simp]: "str a = str b \<longleftrightarrow> a = b"
  by (simp add: str_def inj_map_eq_map inj_def)

lemma str_Nil [simp]: "str [] = []" "str a = [] \<longleftrightarrow> a = []" "[] = str a \<longleftrightarrow> a = []"
  by (auto simp: str_def)

lemma str_length [simp]: "length (str a) = length a"
  by (simp add: str_def)

lemma prop_of_jobj: "prop_of (jobj ps) (str k) = (case map_of ps k of None \<Rightarrow> JUndefined | Some v \<Rightarrow> v)"
proof -
  have "map_of (map (\<lambda>(k, v). (str k, v)) ps) (str k) = map_of ps k"
    by (induction ps) auto
  then show ?thesis by (simp add: jobj_def)
qed

lemma fallback_decision:
  "prop_of (getFallbackAnalysis now s t ty e rid) (str ''decision'') =
     jobj [(''action'', jstr ''HOLD''), (''entry'', jstr ''N/A''), (''sl'', jstr ''N/A''),
           (''tp1'', jstr ''N/A''), (''tp2'', jstr ''N/A''), (''probability'', jstr ''0%''),
           (''risk_reward'', jstr ''N/A''),
           (''reason'', JStr (str ''Technical analysis failed: ''
              @ (if message e = [] then str ''Insufficient or unclear chart data'' else message e)
              @ str ''. Please upload a clearer screenshot with visible price levels.'')),
           (''invalid_if'', jstr ''N/A'')]"
  by (simp add: getFallbackAnalysis_def prop_of_jobj)

lemma fallback_risk:
  "prop_of (getFallbackAnalysis now s t ty e rid) (str ''risk_assessment'') =
     jobj [(''level'', jstr ''high''), (''recommended_position'', jstr ''none''),
           (''timeframe_suitability'', jstr ''poor'')]"
  by (simp add: getFallbackAnalysis_def prop_of_jobj)

lemma fallback_error:
  "prop_of (getFallbackAnalysis now s t ty e rid) (str ''error'') =
     jobj [(''message'', JStr (if message e = [] then str ''Analysis failed'' else message e)),
           (''requestId'', JNum (of_nat rid)), (''timestamp'', JStr now)]"
  by (simp add: getFallbackAnalysis_def prop_of_jobj)

lemma fallback_metadata:
  "prop_of (getFallbackAnalysis now s t ty e rid) (str ''metadata'') = JUndefined"
  by (simp add: getFallbackAnalysis_def prop_of_jobj)

lemma mentions_jobj: "mentions (str k) (jobj ps) = list_ex (\<lambda>p. fst p = k \<or> mentions (str k) (snd p)) ps"
  by (simp add: jobj_def list_ex_iff split_def) 

lemma fallback_no_processingTime:
  "\<not> mentions (str ''processingTime'') (getFallbackAnalysis now s t ty e rid)"
  by (simp add: getFallbackAnalysis_def mentions_jobj jstr_def)

lemma and_then_simps [simp]: "and_then (Inl e) k = Inl e" "and_then (Inr x) k = k x"
  by (simp_all add: and_then_def)

lemma attempt_simps [simp]: "attempt (Some e) k = Inl e" "attempt None k = k"
  by (simp_all add: attempt_def)

subsection \<open>Preprocessing\<close>

lemma preprocessImage_try_fails: "some_step_fails sh \<Longrightarrow> isl (preprocessImage_try sh)"
  unfolding some_step_fails_def preprocessImage_try_def resize_needed_def
  by (cases "sharp_res sh"; cases "metadata_res sh"; cases "resize_res sh"; cases "grayscale_res sh";
      cases "normalise_res sh"; cases "sharpen_res sh"; cases "median_res sh"; cases "toBuffer_res sh")
     (simp_all)

lemma preprocessImage_succeeds:
  "\<not> some_step_fails sh \<Longrightarrow> Inr (preprocessImage sh buf) = toBuffer_res sh"
  unfolding some_step_fails_def preprocessImage_try_def resize_needed_def preprocessImage_def
  by (cases "metadata_res sh"; cases "toBuffer_res sh") (auto)

text \<open>
  Claim C6. Whenever a step of the preprocessing fails (building the pipeline, reading the
  metadata, a resize that the size asks for, grayscale, normalisation, sharpening, the
  median filter or the encoding of the result), \<open>preprocessImage\<close> returns the bytes it
  was given. It has no other exit: the handler of its \<open>try\<close> block returns, so nothing
  is raised to the pipeline.
\<close>

theorem preprocessImage_failure_returns_original:
  "some_step_fails sh \<Longrightarrow> preprocessImage sh buf = buf"
  using preprocessImage_try_fails [of sh]
  by (cases "preprocessImage_try sh") (simp_all add: preprocessImage_def)

theorem preprocessImage_failure_returns_original_witness:
  "some_step_fails (quiet_sharp\<lparr>metadata_res := Inl (Error (str ''Input buffer contains unsupported image format''))\<rparr>) \<and>
   preprocessImage (quiet_sharp\<lparr>metadata_res := Inl (Error (str ''Input buffer contains unsupported image format''))\<rparr>)
     [137, 80, 78, 71] = [137, 80, 78, 71]"
  using preprocessImage_failure_returns_original
    [of "quiet_sharp\<lparr>metadata_res := Inl (Error (str ''Input buffer contains unsupported image format''))\<rparr>" "[137, 80, 78, 71]"]
  by (simp add: some_step_fails_def)

subsection \<open>Text extraction\<close>

lemma extractChartDataWithOCR_failure:
  "ocr_fails w \<Longrightarrow> fst (extractChartDataWithOCR w) = empty_ocr_result"
  unfolding ocr_fails_def extractChartDataWithOCR_def extractChartDataWithOCR_try_def Let_def
  by (cases "createWorker_res w"; cases "setParameters_res w"; cases "recognize_res w";
      cases "terminate_res w") simp_all

lemma extractChartDataWithOCR_success:
  "\<not> ocr_fails w \<Longrightarrow>
     \<exists>text. recognize_res w = Inr text \<and> fst (extractChartDataWithOCR w) = parseOCRText text"
  unfolding ocr_fails_def extractChartDataWithOCR_def extractChartDataWithOCR_try_def Let_def
  by (cases "recognize_res w") auto

lemma terminate_calls_count:
  "createWorker_res w = None \<Longrightarrow>
     length (terminate_calls (snd (extractChartDataWithOCR w))) =
       (if terminate_raises_after_recognition w then 2 else 1)"
  unfolding terminate_raises_after_recognition_def extractChartDataWithOCR_def
    extractChartDataWithOCR_try_def Let_def terminate_calls_def
  by (cases "setParameters_res w"; cases "recognize_res w"; cases "terminate_res w") auto

text \<open>
  Claim C7, amended. When a worker has been acquired, \<open>terminate\<close> is called before
  \<open>extractChartDataWithOCR\<close> returns: once on the success path, after a recognition
  error and after an error in the configuration; twice when the call on the success path
  itself raises, since the handler then finds the worker still set and calls it again.
  Whenever a call on the engine fails, the result is the empty result, with no text and
  \<open>hasData\<close> false.
\<close>

theorem extractChartDataWithOCR_release:
  "(createWorker_res w = None \<longrightarrow>
      length (terminate_calls (snd (extractChartDataWithOCR w))) =
        (if terminate_raises_after_recognition w then 2 else 1)) \<and>
   (ocr_fails w \<longrightarrow>
      fst (extractChartDataWithOCR w) = empty_ocr_result \<and>
      rawText (fst (extractChartDataWithOCR w)) = [] \<and>
      \<not> hasData (extractedData (fst (extractChartDataWithOCR w))))"
  by (simp add: terminate_calls_count extractChartDataWithOCR_failure) (simp add: empty_ocr_result_def)

theorem extractChartDataWithOCR_release_witness:
  "createWorker_res (quiet_ocr\<lparr>recognize_res := Inl (Error (str ''recognition failed''))\<rparr>) = None \<and>
   ocr_fails (quiet_ocr\<lparr>recognize_res := Inl (Error (str ''recognition failed''))\<rparr>) \<and>
   terminate_calls (snd (extractChartDataWithOCR
      (quiet_ocr\<lparr>recognize_res := Inl (Error (str ''recognition failed''))\<rparr>))) = [Terminate True] \<and>
   fst (extractChartDataWithOCR (quiet_ocr\<lparr>recognize_res := Inl (Error (str ''recognition failed''))\<rparr>)) =
     empty_ocr_result"
  using extractChartDataWithOCR_release [of "quiet_ocr\<lparr>recognize_res := Inl (Error (str ''recognition failed''))\<rparr>"]
  by (simp add: quiet_ocr_def ocr_fails_def extractChartDataWithOCR_def extractChartDataWithOCR_try_def
      terminate_calls_def)

text \<open>
  Claim C7 as stated fails where \<open>terminate\<close> raises after a successful recognition:
  it is called twice, and here neither call ends the session.
\<close>

theorem extractChartDataWithOCR_terminate_twice:
  "createWorker_res (quiet_ocr\<lparr>terminate_res := Some (Error (str ''worker is gone'')),
                                terminate_again_res := Some (Error (str ''worker is gone''))\<rparr>) = None \<and>
   terminate_calls (snd (extractChartDataWithOCR
      (quiet_ocr\<lparr>terminate_res := Some (Error (str ''worker is gone'')),
                 terminate_again_res := Some (Error (str ''worker is gone''))\<rparr>))) =
     [Terminate False, Terminate False]"
  by (simp add: quiet_ocr_def extractChartDataWithOCR_def extractChartDataWithOCR_try_def
      terminate_calls_def)

subsection \<open>The validator\<close>

lemma reply_content_reply_with: "reply_content (reply_with s) = Inr (JStr s)"
  by (simp add: reply_content_def reply_with_def get_prop_def get_first_def prop_of_jobj)
     (simp add: jobj_def)

lemma parseAIResponse_try_cases:
  assumes "reply_content r = Inr (JStr s)"
  shows "parseAIResponse_try r =
           (case JSON_parse (clean_reply s) of
              Inl e \<Rightarrow> Inl e
            | Inr v \<Rightarrow>
                if v = JUndefined \<or> v = JNull then Inl (type_error_read v (str ''decision''))
                else if truthy (prop_of v (str ''decision'')) \<and> truthy (prop_of v (str ''vision_summary''))
                then Inr (set_field (set_field v (str ''disclaimer'') (JStr DISCLAIMER))
                            (str ''api_usage'') (api_usage_of (reply_usage r)))
                else Inl invalid_structure)"
  using assms
  by (auto simp: parseAIResponse_try_def string_receiver_def get_prop_def Let_def
      split: sum.splits)

lemma truthy_prop_of_obj: "truthy (prop_of v k) \<Longrightarrow> \<exists>ps. v = JObj ps"
  by (cases v) simp_all

lemma prop_of_stamped:
  "prop_of (set_field (set_field (JObj ps) (str ''disclaimer'') d) (str ''api_usage'') u) k =
     (if k = str ''api_usage'' then u else if k = str ''disclaimer'' then d else prop_of (JObj ps) k)"
  by (simp add: set_field_def map_of_set_prop)

text \<open>
  Claim C8, amended. For a reply whose content is a string, the validator strips the code
  fences and a leading \<open>json\<close> tag and parses the rest as JSON. It fails, returning the
  fallback, exactly when the text is no JSON or the field \<open>decision\<close> or the field
  \<open>vision_summary\<close> of the parsed value is absent or falsy (\<open>null\<close>, \<open>false\<close>,
  zero, the empty string). Otherwise the parsed value is an object and the result is that
  object with \<open>disclaimer\<close> and \<open>api_usage\<close> assigned: every other property reads as
  in the parsed value.
\<close>

theorem parseAIResponse_validation:
  assumes "reply_content r = Inr (JStr s)"
  shows "case JSON_parse (clean_reply s) of
           Inl e \<Rightarrow>
             parseAIResponse_try r = Inl e \<and>
             parseAIResponse now r rid =
               getFallbackAnalysis now (str ''Unknown'') (str ''Unknown'') (str ''Unknown'') e rid
         | Inr v \<Rightarrow>
             if truthy (prop_of v (str ''decision'')) \<and> truthy (prop_of v (str ''vision_summary''))
             then (\<exists>ps. v = JObj ps) \<and>
                  parseAIResponse_try r = Inr (parseAIResponse now r rid) \<and>
                  parseAIResponse now r rid =
                    set_field (set_field v (str ''disclaimer'') (JStr DISCLAIMER))
                      (str ''api_usage'') (api_usage_of (reply_usage r)) \<and>
                  prop_of (parseAIResponse now r rid) (str ''disclaimer'') = JStr DISCLAIMER \<and>
                  prop_of (parseAIResponse now r rid) (str ''api_usage'') = api_usage_of (reply_usage r) \<and>
                  (\<forall>k. k \<noteq> str ''disclaimer'' \<and> k \<noteq> str ''api_usage'' \<longrightarrow>
                       prop_of (parseAIResponse now r rid) k = prop_of v k)
             else (\<exists>e. parseAIResponse_try r = Inl e \<and>
                       parseAIResponse now r rid =
                         getFallbackAnalysis now (str ''Unknown'') (str ''Unknown'') (str ''Unknown'') e rid)"
proof (cases "JSON_parse (clean_reply s)")
  case (Inl e)
  then show ?thesis
    by (simp add: parseAIResponse_def parseAIResponse_try_cases [OF assms])
next
  case (Inr v)
  show ?thesis
  proof (cases "truthy (prop_of v (str ''decision'')) \<and> truthy (prop_of v (str ''vision_summary''))")
    case True
    then obtain ps where v: "v = JObj ps" using truthy_prop_of_obj by blast
    from True Inr v show ?thesis
      by (simp add: parseAIResponse_def parseAIResponse_try_cases [OF assms] prop_of_stamped
          del: prop_of.simps)
  next
    case False
    with Inr show ?thesis
      by (auto simp: parseAIResponse_def parseAIResponse_try_cases [OF assms])
  qed
qed

lemma fenced_reply_parsed:
  "JSON_parse (clean_reply fenced_reply) =
     Inr (jobj [(''decision'', jobj [(''action'', jstr ''BUY'')]),
                (''vision_summary'', jobj [(''trend_structure'', jstr ''bullish'')])])"
  by (simp add: fenced_reply_def jobj_def jstr_def reply_defs)

theorem parseAIResponse_validation_witness:
  "reply_content (reply_with fenced_reply) = Inr (JStr fenced_reply) \<and>
   parseAIResponse (str ''2024-01-01T00:00:46.000Z'') (reply_with fenced_reply) 7 =
     jobj [(''decision'', jobj [(''action'', jstr ''BUY'')]),
           (''vision_summary'', jobj [(''trend_structure'', jstr ''bullish'')]),
           (''disclaimer'', JStr DISCLAIMER),
           (''api_usage'', jobj [(''prompt_tokens'', JUndefined), (''completion_tokens'', JUndefined),
                                 (''total_tokens'', JUndefined)])]"
  using parseAIResponse_validation [OF reply_content_reply_with, of fenced_reply
      "str ''2024-01-01T00:00:46.000Z''" 7]
  by (simp add: reply_content_reply_with fenced_reply_parsed prop_of_jobj)
     (simp add: jobj_def set_field_def api_usage_of_def reply_usage_def reply_with_def)

text \<open>
  Claim C8 as stated fails on a reply that holds both fields, one of them falsy: the
  validator fails although neither field is absent.
\<close>

theorem parseAIResponse_rejects_falsy_decision:
  "JSON_parse (clean_reply falsy_decision_reply) =
     Inr (jobj [(''decision'', JBool False), (''vision_summary'', JObj [])]) \<and>
   parseAIResponse_try (reply_with falsy_decision_reply) = Inl invalid_structure \<and>
   parseAIResponse (str ''2024-01-01T00:00:46.000Z'') (reply_with falsy_decision_reply) 7 =
     getFallbackAnalysis (str ''2024-01-01T00:00:46.000Z'') (str ''Unknown'') (str ''Unknown'')
       (str ''Unknown'') invalid_structure 7"
proof -
  have p: "JSON_parse (clean_reply falsy_decision_reply) =
     Inr (jobj [(''decision'', JBool False), (''vision_summary'', JObj [])])"
    by (simp add: falsy_decision_reply_def jobj_def reply_defs)
  have t: "parseAIResponse_try (reply_with falsy_decision_reply) = Inl invalid_structure"
    by (simp add: parseAIResponse_try_cases [OF reply_content_reply_with] p prop_of_jobj)
       (simp add: jobj_def)
  from p t show ?thesis by (simp add: parseAIResponse_def)
qed

subsection \<open>The orchestrator\<close>

lemma getFallbackAnalysis_obj: "\<exists>ps. getFallbackAnalysis now s t ty e rid = JObj ps"
  by (simp add: getFallbackAnalysis_def jobj_def)

lemma prop_of_set_prop:
  "prop_of (JObj (set_prop k v ps)) k' = (if k' = k then v else prop_of (JObj ps) k')"
  by (simp add: map_of_set_prop)

lemma analyzeTradingChart_try_rejected:
  "input_rejected req \<Longrightarrow> analyzeTradingChart_try w req rid = Inl (Error (validation_message req))"
  by (auto simp: input_rejected_def validation_message_def analyzeTradingChart_try_def
      split: option.splits)

lemma analyzeTradingChart_try_accepted:
  "\<not> input_rejected req \<Longrightarrow>
     analyzeTradingChart_try w req rid =
       and_then (analyzeWithAI (post_res w) (fallback_iso w) rid) (\<lambda>analysisResult.
         Inr (JObj (set_prop (str ''metadata'')
           (jobj [(''requestId'', JNum (of_nat rid)),
                  (''processingTime'', JStr (int_to_string (end_ms w - start_ms w) @ str ''ms'')),
                  (''apiProvider'', jstr ''DeepSeek''),
                  (''symbol'', JStr (symbol req)),
                  (''timeframe'', JStr (timeframe req)),
                  (''tradeType'', JStr (tradeType req)),
                  (''timestamp'', JStr (metadata_iso w)),
                  (''version'', jstr ''1.0.0'')])
           (spread analysisResult))))"
  by (auto simp: input_rejected_def analyzeTradingChart_try_def Let_def split: option.splits)

lemma validation_message_nonempty: "validation_message req \<noteq> []"
  by (simp add: validation_message_def)

text \<open>
  Claim C10. A call whose image buffer is null or empty, or whose symbol is not one of
  the trading pairs, returns the fallback result built from the validation error: the
  action is HOLD and the error block carries the validation message, the request
  identifier and the time stamp. The validation is inside the \<open>try\<close> block, whose
  handler returns, so nothing is raised.
\<close>

theorem analyzeTradingChart_rejected_input_fallback:
  "input_rejected req \<Longrightarrow>
     fst (analyzeTradingChart w n req) =
       getFallbackAnalysis (fallback_iso w) (symbol req) (timeframe req) (tradeType req)
         (Error (validation_message req)) (n + 1) \<and>
     prop_of (prop_of (fst (analyzeTradingChart w n req)) (str ''decision'')) (str ''action'') = jstr ''HOLD'' \<and>
     prop_of (prop_of (fst (analyzeTradingChart w n req)) (str ''error'')) (str ''message'') =
       JStr (validation_message req) \<and>
     prop_of (prop_of (fst (analyzeTradingChart w n req)) (str ''error'')) (str ''requestId'') =
       JNum (of_nat (n + 1)) \<and>
     prop_of (prop_of (fst (analyzeTradingChart w n req)) (str ''error'')) (str ''timestamp'') =
       JStr (fallback_iso w)"
  by (simp add: analyzeTradingChart_def analyzeTradingChart_try_rejected fallback_decision
      fallback_error prop_of_jobj validation_message_nonempty)

theorem analyzeTradingChart_rejected_input_fallback_witness:
  "input_rejected (sample_request\<lparr>symbol := str ''DOGEUSD''\<rparr>) \<and>
   prop_of (prop_of (fst (analyzeTradingChart timeout_world 6 (sample_request\<lparr>symbol := str ''DOGEUSD''\<rparr>)))
     (str ''decision'')) (str ''action'') = jstr ''HOLD'' \<and>
   prop_of (prop_of (fst (analyzeTradingChart timeout_world 6 (sample_request\<lparr>symbol := str ''DOGEUSD''\<rparr>)))
     (str ''error'')) (str ''message'') = jstr ''Invalid symbol: DOGEUSD'' \<and>
   prop_of (prop_of (fst (analyzeTradingChart timeout_world 6 (sample_request\<lparr>symbol := str ''DOGEUSD''\<rparr>)))
     (str ''error'')) (str ''requestId'') = JNum 7"
proof -
  have r: "input_rejected (sample_request\<lparr>symbol := str ''DOGEUSD''\<rparr>)"
    by (simp add: input_rejected_def sample_request_def TRADING_PAIRS_def)
  have m: "validation_message (sample_request\<lparr>symbol := str ''DOGEUSD''\<rparr>) = str ''Invalid symbol: DOGEUSD''"
    by (simp add: validation_message_def sample_request_def str_def)
  from analyzeTradingChart_rejected_input_fallback [OF r, of timeout_world 6] r m
  show ?thesis by (simp add: jstr_def fallback_decision fallback_error prop_of_jobj)
qed


lemma analyzeTradingChart_try_raises:
  "pipeline_raises w req \<Longrightarrow> isl (analyzeTradingChart_try w req rid)"
  by (cases "input_rejected req"; cases "post_res w")
     (simp_all add: pipeline_raises_def analyzeTradingChart_try_rejected
        analyzeTradingChart_try_accepted analyzeWithAI_def)

lemma analyzeTradingChart_annotated_success:
  assumes "\<not> pipeline_raises w req"
  shows "prop_of (fst (analyzeTradingChart w n req)) (str ''metadata'') =
           jobj [(''requestId'', JNum (of_nat (n + 1))),
                 (''processingTime'', JStr (int_to_string (end_ms w - start_ms w) @ str ''ms'')),
                 (''apiProvider'', jstr ''DeepSeek''),
                 (''symbol'', JStr (symbol req)),
                 (''timeframe'', JStr (timeframe req)),
                 (''tradeType'', JStr (tradeType req)),
                 (''timestamp'', JStr (metadata_iso w)),
                 (''version'', jstr ''1.0.0'')]"
proof -
  from assms obtain data where "post_res w = Inr data" and "\<not> input_rejected req"
    by (cases "post_res w") (auto simp: pipeline_raises_def)
  then show ?thesis
    by (simp add: analyzeTradingChart_def analyzeTradingChart_try_accepted analyzeWithAI_def
        map_of_set_prop)
qed

lemma analyzeTradingChart_fallback_on_raise:
  assumes "pipeline_raises w req"
  shows "\<exists>e. fst (analyzeTradingChart w n req) =
           getFallbackAnalysis (fallback_iso w) (symbol req) (timeframe req) (tradeType req) e (n + 1)"
  using analyzeTradingChart_try_raises [OF assms, of "n + 1"]
  by (cases "analyzeTradingChart_try w req (n + 1)") (auto simp: analyzeTradingChart_def)

text \<open>
  Claim C9, amended. When the \<open>try\<close> block of the orchestrator ends normally (the
  request is accepted and the remote call returns, whether or not the reply is valid),
  the result carries a metadata block with the request identifier, the processing time
  and a time stamp. When it ends in the handler, the result is the fallback, whose error
  block carries the request identifier and a time stamp, and which carries no processing
  time anywhere: the duration computed in the handler is only logged.
\<close>

theorem analyzeTradingChart_annotations:
  "(\<not> pipeline_raises w req \<longrightarrow>
      prop_of (prop_of (fst (analyzeTradingChart w n req)) (str ''metadata'')) (str ''requestId'') =
        JNum (of_nat (n + 1)) \<and>
      prop_of (prop_of (fst (analyzeTradingChart w n req)) (str ''metadata'')) (str ''processingTime'') =
        JStr (int_to_string (end_ms w - start_ms w) @ str ''ms'') \<and>
      prop_of (prop_of (fst (analyzeTradingChart w n req)) (str ''metadata'')) (str ''timestamp'') =
        JStr (metadata_iso w)) \<and>
   (pipeline_raises w req \<longrightarrow>
      prop_of (prop_of (fst (analyzeTradingChart w n req)) (str ''error'')) (str ''requestId'') =
        JNum (of_nat (n + 1)) \<and>
      prop_of (prop_of (fst (analyzeTradingChart w n req)) (str ''error'')) (str ''timestamp'') =
        JStr (fallback_iso w) \<and>
      \<not> mentions (str ''processingTime'') (fst (analyzeTradingChart w n req)))"
proof (cases "pipeline_raises w req")
  case True
  from analyzeTradingChart_fallback_on_raise [OF True, of n] obtain e where
    "fst (analyzeTradingChart w n req) =
       getFallbackAnalysis (fallback_iso w) (symbol req) (timeframe req) (tradeType req) e (n + 1)"
    by blast
  with True show ?thesis
    by (simp add: fallback_error fallback_no_processingTime prop_of_jobj)
next
  case False
  then show ?thesis
    by (simp add: analyzeTradingChart_annotated_success prop_of_jobj)
qed

lemma timeout_world_raises: "pipeline_raises timeout_world sample_request"
  by (simp add: pipeline_raises_def timeout_world_def)

theorem analyzeTradingChart_annotations_witness:
  "pipeline_raises timeout_world sample_request \<and>
   prop_of (prop_of (fst (analyzeTradingChart timeout_world 6 sample_request)) (str ''error'')) (str ''requestId'') =
     JNum 7 \<and>
   prop_of (prop_of (fst (analyzeTradingChart timeout_world 6 sample_request)) (str ''error'')) (str ''timestamp'') =
     jstr ''2024-01-01T00:00:46.000Z''"
  using analyzeTradingChart_annotations [of timeout_world sample_request 6] timeout_world_raises
  by (simp add: timeout_world_def jstr_def)

text \<open>
  Claim C9 as stated fails when the remote service times out: the result handed back
  holds no processing duration.
\<close>

theorem analyzeTradingChart_timeout_no_duration:
  "fst (analyzeTradingChart timeout_world 6 sample_request) =
     getFallbackAnalysis (str ''2024-01-01T00:00:46.000Z'') (str ''XAUUSD'') (str ''H1'') (str ''intraday'')
       (Error (str ''AI service error: timeout of 45000ms exceeded'')) 7 \<and>
   \<not> mentions (str ''processingTime'') (fst (analyzeTradingChart timeout_world 6 sample_request))"
proof -
  have "\<not> input_rejected sample_request"
    by (simp add: input_rejected_def sample_request_def TRADING_PAIRS_def)
  then have "fst (analyzeTradingChart timeout_world 6 sample_request) =
     getFallbackAnalysis (str ''2024-01-01T00:00:46.000Z'') (str ''XAUUSD'') (str ''H1'') (str ''intraday'')
       (Error (str ''AI service error: timeout of 45000ms exceeded'')) 7"
    by (simp add: analyzeTradingChart_def analyzeTradingChart_try_accepted analyzeWithAI_def
        timeout_world_def sample_request_def str_def)
  then show ?thesis by (simp add: fallback_no_processingTime)
qed

lemma spread_getFallbackAnalysis:
  "JObj (spread (getFallbackAnalysis now s t ty e rid)) = getFallbackAnalysis now s t ty e rid"
  using getFallbackAnalysis_obj [of now s t ty e rid] by (auto simp: spread_def)

lemma fallback_with_metadata:
  "k \<noteq> str ''metadata'' \<Longrightarrow>
     prop_of (JObj (set_prop (str ''metadata'') m (spread (getFallbackAnalysis now s t ty e rid)))) k =
     prop_of (getFallbackAnalysis now s t ty e rid) k"
  using getFallbackAnalysis_obj [of now s t ty e rid] by (auto simp: spread_def map_of_set_prop)

lemma analyzeTradingChart_invocation_failure:
  assumes "\<not> input_rejected req" and "invocation_fails w e"
  shows "fst (analyzeTradingChart w n req) =
           getFallbackAnalysis (fallback_iso w) (symbol req) (timeframe req) (tradeType req)
             (Error (str ''AI service error: '' @ message e)) (n + 1)"
  using assms
  by (simp add: invocation_fails_def analyzeTradingChart_def analyzeTradingChart_try_accepted
      analyzeWithAI_def)

lemma analyzeTradingChart_validation_failure:
  assumes "\<not> input_rejected req" and "validation_fails w e" and "k \<noteq> str ''metadata''"
  shows "prop_of (fst (analyzeTradingChart w n req)) k =
           prop_of (getFallbackAnalysis (fallback_iso w) (str ''Unknown'') (str ''Unknown'')
                      (str ''Unknown'') e (n + 1)) k"
proof -
  from assms(2) obtain data where "post_res w = Inr data" "parseAIResponse_try data = Inl e"
    by (cases "post_res w") (auto simp: validation_fails_def)
  with assms(1,3) show ?thesis
    by (simp add: analyzeTradingChart_def analyzeTradingChart_try_accepted analyzeWithAI_def
        parseAIResponse_def fallback_with_metadata del: prop_of.simps)
qed

lemma fallback_fields:
  "prop_of (prop_of (getFallbackAnalysis now s t ty e rid) (str ''decision'')) (str ''action'') = jstr ''HOLD''"
  "prop_of (prop_of (getFallbackAnalysis now s t ty e rid) (str ''decision'')) (str ''probability'') = jstr ''0%''"
  "prop_of (prop_of (getFallbackAnalysis now s t ty e rid) (str ''risk_assessment'')) (str ''level'') = jstr ''high''"
  "prop_of (prop_of (getFallbackAnalysis now s t ty e rid) (str ''risk_assessment'')) (str ''recommended_position'') = jstr ''none''"
  "prop_of (prop_of (getFallbackAnalysis now s t ty e rid) (str ''error'')) (str ''requestId'') = JNum (of_nat rid)"
  "prop_of (prop_of (getFallbackAnalysis now s t ty e rid) (str ''error'')) (str ''timestamp'') = JStr now"
  "prop_of (prop_of (getFallbackAnalysis now s t ty e rid) (str ''decision'')) (str ''reason'') =
     JStr (str ''Technical analysis failed: ''
           @ (if message e = [] then str ''Insufficient or unclear chart data'' else message e)
           @ str ''. Please upload a clearer screenshot with visible price levels.'')"
  "prop_of (getFallbackAnalysis now s t ty e rid) (str ''error'') \<noteq> JUndefined"
  "prop_of (getFallbackAnalysis now s t ty e rid) (str ''error'') \<noteq> JNull"
  by (simp_all add: fallback_decision fallback_risk fallback_error prop_of_jobj)
     (simp_all add: jobj_def)

lemma reason_embeds:
  "\<exists>pre post. a @ (if m = [] then d else m) @ b = pre @ m @ post"
proof (cases "m = []")
  case True
  then show ?thesis by (intro exI [of _ "a @ d @ b"] exI [of _ "[]"]) simp
next
  case False
  then show ?thesis by (intro exI [of _ a] exI [of _ b]) simp
qed

text \<open>
  Claim C1. When the request is accepted and the remote call raises, or the validator's
  \<open>try\<close> block raises on the reply, the result of \<open>analyzeTradingChart\<close> has the
  action HOLD, the probability 0%, the risk level high and the recommended position none;
  the reason holds the message of the error, and the error block is there and carries the
  request identifier and the time stamp of the fallback.
\<close>

theorem analyzeTradingChart_fallback_on_ai_failure:
  assumes "\<not> input_rejected req" and "invocation_fails w e \<or> validation_fails w e"
  shows "prop_of (prop_of (fst (analyzeTradingChart w n req)) (str ''decision'')) (str ''action'') = jstr ''HOLD'' \<and>
         prop_of (prop_of (fst (analyzeTradingChart w n req)) (str ''decision'')) (str ''probability'') = jstr ''0%'' \<and>
         prop_of (prop_of (fst (analyzeTradingChart w n req)) (str ''risk_assessment'')) (str ''level'') = jstr ''high'' \<and>
         prop_of (prop_of (fst (analyzeTradingChart w n req)) (str ''risk_assessment'')) (str ''recommended_position'') = jstr ''none'' \<and>
         (\<exists>pre post. prop_of (prop_of (fst (analyzeTradingChart w n req)) (str ''decision'')) (str ''reason'') =
            JStr (pre @ message e @ post)) \<and>
         prop_of (fst (analyzeTradingChart w n req)) (str ''error'') \<noteq> JUndefined \<and>
         prop_of (fst (analyzeTradingChart w n req)) (str ''error'') \<noteq> JNull \<and>
         prop_of (prop_of (fst (analyzeTradingChart w n req)) (str ''error'')) (str ''requestId'') = JNum (of_nat (n + 1)) \<and>
         prop_of (prop_of (fst (analyzeTradingChart w n req)) (str ''error'')) (str ''timestamp'') = JStr (fallback_iso w)"
  using assms(2)
proof
  assume i: "invocation_fails w e"
  have "\<exists>pre post. str ''Technical analysis failed: '' @ (str ''AI service error: '' @ message e)
            @ str ''. Please upload a clearer screenshot with visible price levels.'' = pre @ message e @ post"
    by (intro exI [of _ "str ''Technical analysis failed: '' @ str ''AI service error: ''"]
          exI [of _ "str ''. Please upload a clearer screenshot with visible price levels.''"]) simp
  then show ?thesis
    unfolding analyzeTradingChart_invocation_failure [OF assms(1) i]
    by (simp add: fallback_fields)
next
  assume v: "validation_fails w e"
  note f = analyzeTradingChart_validation_failure [OF assms(1) v]
  have k: "str ''decision'' \<noteq> str ''metadata''" "str ''risk_assessment'' \<noteq> str ''metadata''"
    "str ''error'' \<noteq> str ''metadata''" by simp_all
  show ?thesis
    unfolding f [OF k(1)] f [OF k(2)] f [OF k(3)]
    using reason_embeds [of "str ''Technical analysis failed: ''" "message e"
        "str ''Insufficient or unclear chart data''"
        "str ''. Please upload a clearer screenshot with visible price levels.''"]
    by (simp add: fallback_fields)
qed

lemma malformed_reply_validation_fails: "validation_fails malformed_reply_world syntax_error"
  by (simp add: validation_fails_def malformed_reply_world_def parseAIResponse_try_def
      reply_content_def get_prop_def get_first_def jobj_def jstr_def string_receiver_def
      reply_defs)

theorem analyzeTradingChart_fallback_on_ai_failure_witness:
  "\<not> input_rejected sample_request \<and>
   invocation_fails timeout_world (Error (str ''timeout of 45000ms exceeded'')) \<and>
   prop_of (prop_of (fst (analyzeTradingChart timeout_world 6 sample_request)) (str ''decision'')) (str ''action'') = jstr ''HOLD'' \<and>
   prop_of (prop_of (fst (analyzeTradingChart timeout_world 6 sample_request)) (str ''error'')) (str ''requestId'') = JNum 7 \<and>
   validation_fails malformed_reply_world syntax_error \<and>
   prop_of (prop_of (fst (analyzeTradingChart malformed_reply_world 6 sample_request)) (str ''decision'')) (str ''action'') = jstr ''HOLD'' \<and>
   prop_of (prop_of (fst (analyzeTradingChart malformed_reply_world 6 sample_request)) (str ''error'')) (str ''requestId'') = JNum 7"
proof -
  have a: "\<not> input_rejected sample_request"
    by (simp add: input_rejected_def sample_request_def TRADING_PAIRS_def)
  have b: "invocation_fails timeout_world (Error (str ''timeout of 45000ms exceeded''))"
    by (simp add: invocation_fails_def timeout_world_def)
  note c = malformed_reply_validation_fails
  from analyzeTradingChart_fallback_on_ai_failure [OF a disjI1 [OF b], of 6]
    analyzeTradingChart_fallback_on_ai_failure [OF a disjI2 [OF c], of 6] a b c
  show ?thesis by simp
qed

end
